theory Spec2Isabelle
  imports Main "HOL-Library.AList" "HOL-Library.Sublist"
begin

section \<open>JavaScript values and the host\<close>

text \<open>
  The plugin of \<^verbatim>\<open>src/index.js\<close> rewrites a schema: an array of rows, each row an
  array of elements, each element an object. Of the values stored under the properties
  of an element the program uses three things only: whether the value is truthy,
  whether it is the boolean \<^verbatim>\<open>false\<close>, and the property key it converts to. A number
  is therefore given by the string that \<^verbatim>\<open>Number.prototype.toString\<close> returns for it
  (\<^verbatim>\<open>"0"\<close> for both zeros, \<^verbatim>\<open>"NaN"\<close>, \<^verbatim>\<open>"1e+21"\<close>, ...), and every other object,
  native functions included, is a reference into the host, which the program never
  writes to.
\<close>

datatype jsval =
    JUndefined
  | JNull
  | JBool bool
  | JNum string
  | JStr string
  | JRef nat

datatype error = ReferenceError | TypeError

text \<open>
  What the host shows of a property looked up through one of its objects and that
  object's prototype chain: nothing, a data property with its value and whether it is
  writable, or the accessor \<^verbatim>\<open>__proto__\<close> of \<^verbatim>\<open>Object.prototype\<close>. Other accessors
  and proxies do not occur in the chains considered.
\<close>

datatype hostProp = Absent | Data jsval bool | ProtoAccessor

text \<open>
  The global \<^verbatim>\<open>process\<close> as the test
  \<^verbatim>\<open>process.env && process.env.NODE_ENV !== 'production'\<close> sees it: not defined at
  all, defined with a falsy \<^verbatim>\<open>env\<close>, or defined with a truthy \<^verbatim>\<open>env\<close> whose
  \<^verbatim>\<open>NODE_ENV\<close> has the given value.
\<close>

datatype procState = NoProcess | NoEnv | NodeEnv jsval

record host =
  objectPrototype :: nat
  hostProperty :: "nat \<Rightarrow> string \<Rightarrow> hostProp"
  objectKey :: "nat \<Rightarrow> error + string"
  processGlobal :: procState

text \<open>\<^verbatim>\<open>!v\<close> is false exactly for the truthy values.\<close>

fun truthy :: "jsval \<Rightarrow> bool" where
  "truthy JUndefined = False"
| "truthy JNull = False"
| "truthy (JBool b) = b"
| "truthy (JNum n) = (n \<noteq> ''0'' \<and> n \<noteq> ''NaN'')"
| "truthy (JStr s) = (s \<noteq> [])"
| "truthy (JRef r) = True"

text \<open>
  The key under which \<^verbatim>\<open>obj[v]\<close> reads and writes. Converting an object runs its
  \<^verbatim>\<open>toString\<close> or \<^verbatim>\<open>valueOf\<close> and may throw; the host says which.
\<close>

fun toPropertyKey :: "host \<Rightarrow> jsval \<Rightarrow> error + string" where
  "toPropertyKey h JUndefined = Inr ''undefined''"
| "toPropertyKey h JNull = Inr ''null''"
| "toPropertyKey h (JBool b) = Inr (if b then ''true'' else ''false'')"
| "toPropertyKey h (JNum n) = Inr n"
| "toPropertyKey h (JStr s) = Inr s"
| "toPropertyKey h (JRef r) = objectKey h r"

section \<open>Objects\<close>

text \<open>
  An object the program reads or builds is the list of its own properties in
  enumeration order, each key once, and its prototype: \<^verbatim>\<open>null\<close> or a host object. An
  object written as a literal or parsed from JSON has the prototype
  \<open>objectPrototype\<close> of the host.
\<close>

datatype prototype = NullPrototype | PrototypeRef nat

record jsobject =
  props :: "(string \<times> jsval) list"
  proto :: prototype

type_synonym element = jsobject
type_synonym row = "element list"
type_synonym schema = "row list"

definition hasOwn :: "jsobject \<Rightarrow> string \<Rightarrow> bool" where
  "hasOwn obj k = (k \<in> set (map fst (props obj)))"

definition inherited :: "host \<Rightarrow> prototype \<Rightarrow> string \<Rightarrow> hostProp" where
  "inherited h p k = (case p of NullPrototype \<Rightarrow> Absent | PrototypeRef r \<Rightarrow> hostProperty h r k)"

text \<open>\<^verbatim>\<open>k in obj\<close>: an own property or one found through the prototype chain.\<close>

definition inProp :: "host \<Rightarrow> jsobject \<Rightarrow> string \<Rightarrow> bool" where
  "inProp h obj k = (hasOwn obj k \<or> inherited h (proto obj) k \<noteq> Absent)"

definition protoValue :: "prototype \<Rightarrow> jsval" where
  "protoValue p = (case p of NullPrototype \<Rightarrow> JNull | PrototypeRef r \<Rightarrow> JRef r)"

text \<open>
  \<^verbatim>\<open>obj[k]\<close>: the own value, else the inherited one, else \<^verbatim>\<open>undefined\<close>. The getter
  of \<^verbatim>\<open>__proto__\<close> returns the prototype of the object the property is read from.
\<close>

definition getProp :: "host \<Rightarrow> jsobject \<Rightarrow> string \<Rightarrow> jsval" where
  "getProp h obj k =
     (case map_of (props obj) k of
        Some v \<Rightarrow> v
      | None \<Rightarrow>
          (case inherited h (proto obj) k of
             Absent \<Rightarrow> JUndefined
           | Data v w \<Rightarrow> v
           | ProtoAccessor \<Rightarrow> protoValue (proto obj)))"

text \<open>
  \<^verbatim>\<open>{...obj}\<close>: a new object with the own properties of \<open>obj\<close>, in order, and the
  prototype of every object literal.
\<close>

definition spread :: "host \<Rightarrow> jsobject \<Rightarrow> jsobject" where
  "spread h obj = \<lparr>props = props obj, proto = PrototypeRef (objectPrototype h)\<rparr>"

definition deleteOwn :: "string \<Rightarrow> jsobject \<Rightarrow> jsobject" where
  "deleteOwn k obj = obj\<lparr>props := AList.delete k (props obj)\<rparr>"

text \<open>
  Own keys are enumerated with the array indices first, in ascending order, then the
  other strings in the order they were added. An array index is the canonical decimal
  numeral of a number below \<^verbatim>\<open>2^32 - 1\<close>.
\<close>

definition digitValue :: "char \<Rightarrow> int option" where
  "digitValue c =
     map_of [(CHR ''0'', 0), (CHR ''1'', 1), (CHR ''2'', 2), (CHR ''3'', 3), (CHR ''4'', 4),
             (CHR ''5'', 5), (CHR ''6'', 6), (CHR ''7'', 7), (CHR ''8'', 8), (CHR ''9'', 9)] c"

fun parseDigits :: "string \<Rightarrow> int \<Rightarrow> int option" where
  "parseDigits [] n = Some n"
| "parseDigits (c # cs) n =
     (case digitValue c of None \<Rightarrow> None | Some d \<Rightarrow> parseDigits cs (10 * n + d))"

definition arrayIndex :: "string \<Rightarrow> int option" where
  "arrayIndex k =
     (case k of
        [] \<Rightarrow> None
      | c # cs \<Rightarrow>
          if c = CHR ''0'' \<and> cs \<noteq> [] then None
          else (case parseDigits k 0 of
                  None \<Rightarrow> None
                | Some n \<Rightarrow> if n < 4294967295 then Some n else None))"

fun insertIndexed :: "int \<Rightarrow> string \<Rightarrow> jsval \<Rightarrow> (string \<times> jsval) list \<Rightarrow> (string \<times> jsval) list"
  where
  "insertIndexed n k v [] = [(k, v)]"
| "insertIndexed n k v (p # ps) =
     (case arrayIndex (fst p) of
        None \<Rightarrow> (k, v) # p # ps
      | Some m \<Rightarrow> if m < n then p # insertIndexed n k v ps else (k, v) # p # ps)"

text \<open>
  Defining the own data property \<open>k\<close>, as an object literal does for each of its
  entries: an existing key keeps its place and takes the new value.
\<close>

definition defineOwn :: "string \<Rightarrow> jsval \<Rightarrow> jsobject \<Rightarrow> jsobject" where
  "defineOwn k v obj =
     obj\<lparr>props :=
       (if hasOwn obj k then AList.update k v (props obj)
        else (case arrayIndex k of
                None \<Rightarrow> props obj @ [(k, v)]
              | Some n \<Rightarrow> insertIndexed n k v (props obj)))\<rparr>"

text \<open>
  The assignment \<^verbatim>\<open>obj[k] = v\<close> in module code, which is strict. An own property is
  overwritten. Otherwise the prototype chain decides: nothing there or a writable data
  property there, and \<open>k\<close> becomes an own property; a data property there that is not
  writable, and the assignment throws; the accessor \<^verbatim>\<open>__proto__\<close> there, and its setter
  replaces the prototype of \<open>obj\<close> when \<open>v\<close> is an object or \<^verbatim>\<open>null\<close> and does nothing
  otherwise. The program assigns to objects it has just built, which no host object has
  in its prototype chain, so the setter cannot refuse.
\<close>

definition setProp :: "host \<Rightarrow> string \<Rightarrow> jsval \<Rightarrow> jsobject \<Rightarrow> error + jsobject" where
  "setProp h k v obj =
     (if hasOwn obj k then Inr (defineOwn k v obj)
      else (case inherited h (proto obj) k of
              Absent \<Rightarrow> Inr (defineOwn k v obj)
            | Data v' w \<Rightarrow> if w then Inr (defineOwn k v obj) else Inl TypeError
            | ProtoAccessor \<Rightarrow>
                (case v of
                   JRef r \<Rightarrow> Inr (obj\<lparr>proto := PrototypeRef r\<rparr>)
                 | JNull \<Rightarrow> Inr (obj\<lparr>proto := NullPrototype\<rparr>)
                 | _ \<Rightarrow> Inr obj)))"

section \<open>Diagnostics and failures\<close>

text \<open>
  \<^verbatim>\<open>console.warn\<close> is the only effect of the transformation besides building
  objects. Every function returns what it wrote to the console, in order, beside its
  result, and the result is the value returned or the error thrown.
\<close>

datatype diag = Warn string element

type_synonym 'a outcome = "(error + 'a) \<times> diag list"

definition andThen :: "'a outcome \<Rightarrow> ('a \<Rightarrow> 'b outcome) \<Rightarrow> 'b outcome" where
  "andThen m f =
     (case m of
        (Inl e, w) \<Rightarrow> (Inl e, w)
      | (Inr x, w) \<Rightarrow> (case f x of (r, w') \<Rightarrow> (r, w @ w')))"

section \<open>The property rewriter\<close>

text \<open>
  A replacement is a function of the element (\<^verbatim>\<open>typeof replacement === 'function'\<close>)
  or any other value: a string, \<^verbatim>\<open>false\<close>, or whatever else the caller wrote. The
  functions the caller supplies return a value and change nothing.
\<close>

datatype directive = DVal jsval | DFun "element \<Rightarrow> jsval"

text \<open>
  Lines 124 to 144 of \<^verbatim>\<open>replacePropInElement\<close>, after \<open>propReplacement\<close> has been
  settled. Reading \<^verbatim>\<open>process\<close> where none is defined throws.
\<close>

definition replaceWith :: "host \<Rightarrow> element \<Rightarrow> string \<Rightarrow> jsval \<Rightarrow> element outcome" where
  "replaceWith h el prop propReplacement =
     (if \<not> inProp h el prop then
        (case processGlobal h of
           NoProcess \<Rightarrow> (Inl ReferenceError, [])
         | NoEnv \<Rightarrow> (Inr el, [])
         | NodeEnv v \<Rightarrow> (Inr el, if v \<noteq> JStr ''production'' then [Warn prop el] else []))
      else
        let originalValue = getProp h el prop;
            elementCopy = deleteOwn prop (spread h el)
        in if propReplacement = JBool False then (Inr elementCopy, [])
           else (case toPropertyKey h propReplacement of
                   Inl e \<Rightarrow> (Inl e, [])
                 | Inr key \<Rightarrow>
                     (case setProp h key originalValue elementCopy of
                        Inl e \<Rightarrow> (Inl e, [])
                      | Inr elementCopy' \<Rightarrow> (Inr elementCopy', []))))"

definition replacePropInElement ::
    "host \<Rightarrow> element \<Rightarrow> string \<Rightarrow> directive \<Rightarrow> element outcome" where
  "replacePropInElement h el prop replacement =
     (case replacement of
        DFun f \<Rightarrow>
          (let propReplacement = f el
           in if \<not> truthy propReplacement then (Inr el, [])
              else replaceWith h el prop propReplacement)
      | DVal v \<Rightarrow> replaceWith h el prop v)"

section \<open>The schema walker\<close>

text \<open>\<^verbatim>\<open>xs.map(f)\<close>: the first call that throws ends the traversal.\<close>

primrec mapLogged :: "('a \<Rightarrow> 'b outcome) \<Rightarrow> 'a list \<Rightarrow> 'b list outcome" where
  "mapLogged f [] = (Inr [], [])"
| "mapLogged f (x # xs) =
     andThen (f x) (\<lambda>y. andThen (mapLogged f xs) (\<lambda>ys. (Inr (y # ys), [])))"

definition mapElementsInSchema ::
    "schema \<Rightarrow> (element \<Rightarrow> element outcome) \<Rightarrow> schema outcome" where
  "mapElementsInSchema schema fn = mapLogged (\<lambda>row. mapLogged (\<lambda>el. fn el) row) schema"

section \<open>The component mapper\<close>

text \<open>
  The function that \<^verbatim>\<open>mapComps\<close> passes to the walker. The table is an object like
  any other: \<^verbatim>\<open>mapComponents[el.component]\<close> reads its own entries and what it
  inherits.
\<close>

definition mapCompsElement :: "host \<Rightarrow> jsobject \<Rightarrow> element \<Rightarrow> error + element" where
  "mapCompsElement h mapComponents el =
     (case toPropertyKey h (getProp h el ''component'') of
        Inl e \<Rightarrow> Inl e
      | Inr key \<Rightarrow>
          (let newKey = getProp h mapComponents key
           in if \<not> truthy newKey then Inr (spread h el)
              else Inr (defineOwn ''component'' (getProp h mapComponents key) (spread h el))))"

definition mapComps :: "host \<Rightarrow> schema \<Rightarrow> jsobject \<Rightarrow> schema outcome" where
  "mapComps h schema mapComponents =
     mapElementsInSchema schema (\<lambda>el. (mapCompsElement h mapComponents el, []))"

section \<open>The property mapper\<close>

text \<open>
  \<open>MPNone\<close> is the default \<^verbatim>\<open>null\<close> and every other value that fails the first test
  of \<^verbatim>\<open>mapProperties\<close> (falsy, or neither an object nor a function). A static mapping
  and the mapping a user function returns are given as the pairs that
  \<^verbatim>\<open>for (const prop in map)\<close> visits, with \<^verbatim>\<open>map[prop]\<close> beside each key.
\<close>

datatype mapProps =
    MPNone
  | MPStatic "(string \<times> directive) list"
  | MPFun "element \<Rightarrow> (string \<times> directive) list"

text \<open>The loop inside \<^verbatim>\<open>mapPropsForElement\<close>: \<open>el\<close> is reassigned at every entry.\<close>

fun mapPropsForElementLoop ::
    "host \<Rightarrow> element \<Rightarrow> (string \<times> directive) list \<Rightarrow> element outcome" where
  "mapPropsForElementLoop h el [] = (Inr el, [])"
| "mapPropsForElementLoop h el ((prop, d) # rest) =
     andThen (replacePropInElement h el prop d) (\<lambda>el'. mapPropsForElementLoop h el' rest)"

definition mapPropsForElement ::
    "host \<Rightarrow> element \<Rightarrow> (element \<Rightarrow> (string \<times> directive) list) \<Rightarrow> element outcome" where
  "mapPropsForElement h el fn = mapPropsForElementLoop h el (fn el)"

definition mapPropertiesWithUserFunction ::
    "host \<Rightarrow> schema \<Rightarrow> (element \<Rightarrow> (string \<times> directive) list) \<Rightarrow> schema outcome" where
  "mapPropertiesWithUserFunction h schema fn =
     mapElementsInSchema schema (\<lambda>el. mapPropsForElement h el fn)"

text \<open>
  The loop of lines 71 to 76. \<open>schemaCopy\<close> starts unassigned (\<open>None\<close> is
  \<^verbatim>\<open>undefined\<close>) and every iteration walks \<open>schema\<close>, the parameter.
\<close>

fun mapPropertiesLoop ::
    "host \<Rightarrow> schema \<Rightarrow> (string \<times> directive) list \<Rightarrow> schema option \<Rightarrow> schema option outcome"
  where
  "mapPropertiesLoop h schema [] schemaCopy = (Inr schemaCopy, [])"
| "mapPropertiesLoop h schema ((prop, d) # rest) schemaCopy =
     andThen (mapElementsInSchema schema (\<lambda>el. replacePropInElement h el prop d))
       (\<lambda>s. mapPropertiesLoop h schema rest (Some s))"

definition mapProperties :: "host \<Rightarrow> schema \<Rightarrow> mapProps \<Rightarrow> schema option outcome" where
  "mapProperties h schema mp =
     (case mp of
        MPNone \<Rightarrow> (Inr (Some schema), [])
      | MPFun fn \<Rightarrow>
          andThen (mapPropertiesWithUserFunction h schema fn) (\<lambda>s. (Inr (Some s), []))
      | MPStatic m \<Rightarrow> mapPropertiesLoop h schema m None)"

section \<open>The pipeline\<close>

text \<open>
  The body of the effect registered by \<^verbatim>\<open>LookupPlugin\<close>: the value written to
  \<open>replacedSchema\<close> from the value read from \<open>parsedSchema\<close>. Calling \<^verbatim>\<open>map\<close> on
  \<^verbatim>\<open>undefined\<close> throws a \<^verbatim>\<open>TypeError\<close>.
\<close>

definition LookupPlugin ::
    "host \<Rightarrow> jsobject \<Rightarrow> mapProps \<Rightarrow> schema \<Rightarrow> schema outcome" where
  "LookupPlugin h mapComponents mp parsedSchema =
     andThen (mapProperties h parsedSchema mp)
       (\<lambda>r. case r of
               None \<Rightarrow> (Inl TypeError, [])
             | Some s \<Rightarrow> mapComps h s mapComponents)"

section \<open>A host for the examples\<close>

text \<open>
  A host whose \<^verbatim>\<open>Object.prototype\<close> (reference 0) has its standard properties, all
  writable native functions (references 1 to 11) besides the accessor \<^verbatim>\<open>__proto__\<close>,
  and where \<^verbatim>\<open>process.env.NODE_ENV\<close> is \<^verbatim>\<open>'development'\<close>. What the native
  functions themselves and any other host object hold is left empty: no example looks a
  property up in them.
\<close>

definition objectPrototypeProps :: "(string \<times> jsval) list" where
  "objectPrototypeProps =
     [(''constructor'', JRef 1), (''__defineGetter__'', JRef 2), (''__defineSetter__'', JRef 3),
      (''hasOwnProperty'', JRef 4), (''__lookupGetter__'', JRef 5),
      (''__lookupSetter__'', JRef 6), (''isPrototypeOf'', JRef 7),
      (''propertyIsEnumerable'', JRef 8), (''toString'', JRef 9), (''valueOf'', JRef 10),
      (''toLocaleString'', JRef 11)]"

definition nativeNames :: "(nat \<times> string) list" where
  "nativeNames =
     [(1, ''Object''), (2, ''__defineGetter__''), (3, ''__defineSetter__''),
      (4, ''hasOwnProperty''), (5, ''__lookupGetter__''), (6, ''__lookupSetter__''),
      (7, ''isPrototypeOf''), (8, ''propertyIsEnumerable''), (9, ''toString''),
      (10, ''valueOf''), (11, ''toLocaleString'')]"

definition exampleHost :: host where
  "exampleHost =
     \<lparr>objectPrototype = 0,
      hostProperty =
        (\<lambda>r k. if r = 0 then
                  (if k = ''__proto__'' then ProtoAccessor
                   else (case map_of objectPrototypeProps k of
                           None \<Rightarrow> Absent
                         | Some v \<Rightarrow> Data v True))
                else Absent),
      objectKey =
        (\<lambda>r. case map_of nativeNames r of
                None \<Rightarrow> Inr ''[object Object]''
              | Some n \<Rightarrow> Inr (''function '' @ n @ ''() { [native code] }'')),
      processGlobal = NodeEnv (JStr ''development'')\<rparr>"

text \<open>An object as a literal or \<^verbatim>\<open>JSON.parse\<close> builds it in that host.\<close>

definition plain :: "(string \<times> jsval) list \<Rightarrow> jsobject" where
  "plain ps = \<lparr>props = ps, proto = PrototypeRef 0\<rparr>"

section \<open>The same functions on a store of objects and arrays\<close>

text \<open>
  Whether an operation modifies its input is a question about objects that are shared
  by reference, so the functions are written a second time over an explicit store. An
  element is a reference to an object, a row a reference to an array of element
  references, a schema a reference to an array of row references; a reference is the
  index of a cell, and a new cell is added at the end of its region. The statements of
  the source become store operations one by one: \<^verbatim>\<open>{...el}\<close> allocates,
  \<^verbatim>\<open>delete elementCopy[prop]\<close> and \<^verbatim>\<open>elementCopy[k] = v\<close> write to the cell of
  \<open>elementCopy\<close>, \<^verbatim>\<open>map\<close> allocates the array it returns, and \<^verbatim>\<open>console.warn\<close>
  appends the property name and the element reference to the console. A function returns
  the reference it computed or the error it threw, and the store it left.

  JavaScript has no dangling references: the functions are meant for indices of
  allocated cells (\<open>validSchema\<close> below) and read no other index from there.
\<close>

record store =
  objs :: "jsobject list"
  rowArrs :: "nat list list"
  schemaArrs :: "nat list list"
  console :: "(string \<times> nat) list"

type_synonym 'a result = "(error + 'a) \<times> store"

definition newObject :: "jsobject \<Rightarrow> store \<Rightarrow> nat \<times> store" where
  "newObject obj s = (length (objs s), s\<lparr>objs := objs s @ [obj]\<rparr>)"

definition writeObject :: "nat \<Rightarrow> jsobject \<Rightarrow> store \<Rightarrow> store" where
  "writeObject a obj s = s\<lparr>objs := (objs s)[a := obj]\<rparr>"

definition newRow :: "nat list \<Rightarrow> store \<Rightarrow> nat \<times> store" where
  "newRow els s = (length (rowArrs s), s\<lparr>rowArrs := rowArrs s @ [els]\<rparr>)"

definition newSchema :: "nat list \<Rightarrow> store \<Rightarrow> nat \<times> store" where
  "newSchema rows s = (length (schemaArrs s), s\<lparr>schemaArrs := schemaArrs s @ [rows]\<rparr>)"

text \<open>\<^verbatim>\<open>console.warn(`LookupPlugin: property "${prop}" not found in`, el)\<close>\<close>

definition warn :: "string \<Rightarrow> nat \<Rightarrow> store \<Rightarrow> store" where
  "warn prop el s = s\<lparr>console := console s @ [(prop, el)]\<rparr>"

definition replaceWith_st :: "host \<Rightarrow> nat \<Rightarrow> string \<Rightarrow> jsval \<Rightarrow> store \<Rightarrow> nat result" where
  "replaceWith_st h el prop propReplacement s =
     (if \<not> inProp h (objs s ! el) prop then
        (case processGlobal h of
           NoProcess \<Rightarrow> (Inl ReferenceError, s)
         | NoEnv \<Rightarrow> (Inr el, s)
         | NodeEnv v \<Rightarrow> (Inr el, if v \<noteq> JStr ''production'' then warn prop el s else s))
      else
        let originalValue = getProp h (objs s ! el) prop;
            (elementCopy, s1) = newObject (spread h (objs s ! el)) s;
            s2 = writeObject elementCopy (deleteOwn prop (objs s1 ! elementCopy)) s1
        in if propReplacement = JBool False then (Inr elementCopy, s2)
           else (case toPropertyKey h propReplacement of
                   Inl e \<Rightarrow> (Inl e, s2)
                 | Inr key \<Rightarrow>
                     (case setProp h key originalValue (objs s2 ! elementCopy) of
                        Inl e \<Rightarrow> (Inl e, s2)
                      | Inr obj \<Rightarrow> (Inr elementCopy, writeObject elementCopy obj s2))))"

definition replacePropInElement_st ::
    "host \<Rightarrow> nat \<Rightarrow> string \<Rightarrow> directive \<Rightarrow> store \<Rightarrow> nat result" where
  "replacePropInElement_st h el prop replacement s =
     (case replacement of
        DFun f \<Rightarrow>
          (let propReplacement = f (objs s ! el)
           in if \<not> truthy propReplacement then (Inr el, s)
              else replaceWith_st h el prop propReplacement s)
      | DVal v \<Rightarrow> replaceWith_st h el prop v s)"

text \<open>
  \<^verbatim>\<open>Array.prototype.map\<close> with a callback that may allocate: the callback is applied
  to the entries from left to right, each call in the store the previous one left, and
  the first call that throws ends the traversal. The entries are those the array has
  when \<^verbatim>\<open>map\<close> is called; no callback of this program writes to an existing array
  (lemma \<open>mapArray_unchanged\<close>), so reading them one at a time during the traversal
  gives the same entries.
\<close>

primrec mapArray :: "(nat \<Rightarrow> store \<Rightarrow> nat result) \<Rightarrow> nat list \<Rightarrow> store \<Rightarrow> nat list result"
  where
  "mapArray f [] s = (Inr [], s)"
| "mapArray f (x # xs) s =
     (case f x s of
        (Inl e, s1) \<Rightarrow> (Inl e, s1)
      | (Inr y, s1) \<Rightarrow>
          (case mapArray f xs s1 of
             (Inl e, s2) \<Rightarrow> (Inl e, s2)
           | (Inr ys, s2) \<Rightarrow> (Inr (y # ys), s2)))"

definition mapRow_st :: "(nat \<Rightarrow> store \<Rightarrow> nat result) \<Rightarrow> nat \<Rightarrow> store \<Rightarrow> nat result" where
  "mapRow_st fn row s =
     (case mapArray fn (rowArrs s ! row) s of
        (Inl e, s1) \<Rightarrow> (Inl e, s1)
      | (Inr els, s1) \<Rightarrow> (let (r, s2) = newRow els s1 in (Inr r, s2)))"

definition mapElementsInSchema_st ::
    "nat \<Rightarrow> (nat \<Rightarrow> store \<Rightarrow> nat result) \<Rightarrow> store \<Rightarrow> nat result" where
  "mapElementsInSchema_st schema fn s =
     (case mapArray (mapRow_st fn) (schemaArrs s ! schema) s of
        (Inl e, s1) \<Rightarrow> (Inl e, s1)
      | (Inr rows, s1) \<Rightarrow> (let (c, s2) = newSchema rows s1 in (Inr c, s2)))"

definition mapCompsElement_st :: "host \<Rightarrow> jsobject \<Rightarrow> nat \<Rightarrow> store \<Rightarrow> nat result" where
  "mapCompsElement_st h mapComponents el s =
     (case toPropertyKey h (getProp h (objs s ! el) ''component'') of
        Inl e \<Rightarrow> (Inl e, s)
      | Inr key \<Rightarrow>
          (let newKey = getProp h mapComponents key
           in if \<not> truthy newKey then
                (let (c, s1) = newObject (spread h (objs s ! el)) s in (Inr c, s1))
              else
                (let (c, s1) =
                       newObject
                         (defineOwn ''component'' (getProp h mapComponents key)
                            (spread h (objs s ! el))) s
                 in (Inr c, s1))))"

definition mapComps_st :: "host \<Rightarrow> nat \<Rightarrow> jsobject \<Rightarrow> store \<Rightarrow> nat result" where
  "mapComps_st h schema mapComponents s =
     mapElementsInSchema_st schema (mapCompsElement_st h mapComponents) s"

fun mapPropsForElementLoop_st ::
    "host \<Rightarrow> nat \<Rightarrow> (string \<times> directive) list \<Rightarrow> store \<Rightarrow> nat result" where
  "mapPropsForElementLoop_st h el [] s = (Inr el, s)"
| "mapPropsForElementLoop_st h el ((prop, d) # rest) s =
     (case replacePropInElement_st h el prop d s of
        (Inl e, s1) \<Rightarrow> (Inl e, s1)
      | (Inr el', s1) \<Rightarrow> mapPropsForElementLoop_st h el' rest s1)"

definition mapPropsForElement_st ::
    "host \<Rightarrow> (element \<Rightarrow> (string \<times> directive) list) \<Rightarrow> nat \<Rightarrow> store \<Rightarrow> nat result" where
  "mapPropsForElement_st h fn el s = mapPropsForElementLoop_st h el (fn (objs s ! el)) s"

definition mapPropertiesWithUserFunction_st ::
    "host \<Rightarrow> nat \<Rightarrow> (element \<Rightarrow> (string \<times> directive) list) \<Rightarrow> store \<Rightarrow> nat result" where
  "mapPropertiesWithUserFunction_st h schema fn s =
     mapElementsInSchema_st schema (mapPropsForElement_st h fn) s"

fun mapPropertiesLoop_st ::
    "host \<Rightarrow> nat \<Rightarrow> (string \<times> directive) list \<Rightarrow> nat option \<Rightarrow> store \<Rightarrow> nat option result"
  where
  "mapPropertiesLoop_st h schema [] schemaCopy s = (Inr schemaCopy, s)"
| "mapPropertiesLoop_st h schema ((prop, d) # rest) schemaCopy s =
     (case mapElementsInSchema_st schema (\<lambda>el. replacePropInElement_st h el prop d) s of
        (Inl e, s1) \<Rightarrow> (Inl e, s1)
      | (Inr c, s1) \<Rightarrow> mapPropertiesLoop_st h schema rest (Some c) s1)"

definition mapProperties_st :: "host \<Rightarrow> nat \<Rightarrow> mapProps \<Rightarrow> store \<Rightarrow> nat option result" where
  "mapProperties_st h schema mp s =
     (case mp of
        MPNone \<Rightarrow> (Inr (Some schema), s)
      | MPFun fn \<Rightarrow>
          (case mapPropertiesWithUserFunction_st h schema fn s of
             (Inl e, s1) \<Rightarrow> (Inl e, s1)
           | (Inr c, s1) \<Rightarrow> (Inr (Some c), s1))
      | MPStatic m \<Rightarrow> mapPropertiesLoop_st h schema m None s)"

definition LookupPlugin_st ::
    "host \<Rightarrow> jsobject \<Rightarrow> mapProps \<Rightarrow> nat \<Rightarrow> store \<Rightarrow> nat result" where
  "LookupPlugin_st h mapComponents mp parsedSchema s =
     (case mapProperties_st h parsedSchema mp s of
        (Inl e, s1) \<Rightarrow> (Inl e, s1)
      | (Inr None, s1) \<Rightarrow> (Inl TypeError, s1)
      | (Inr (Some c), s1) \<Rightarrow> mapComps_st h c mapComponents s1)"

text \<open>
  \<open>unchanged s s'\<close>: every object, row array and schema array that exists in \<open>s\<close>
  exists in \<open>s'\<close> with the same contents; \<open>s'\<close> may hold more cells.
\<close>

definition unchanged :: "store \<Rightarrow> store \<Rightarrow> bool" where
  "unchanged s s' \<longleftrightarrow>
     prefix (objs s) (objs s') \<and> prefix (rowArrs s) (rowArrs s')
     \<and> prefix (schemaArrs s) (schemaArrs s')"

text \<open>
  The value a reference stands for, read through the store, and the references that
  point to allocated cells all the way down.
\<close>

definition rowValue :: "store \<Rightarrow> nat \<Rightarrow> row" where
  "rowValue s r = map (\<lambda>a. objs s ! a) (rowArrs s ! r)"

definition schemaValue :: "store \<Rightarrow> nat \<Rightarrow> schema" where
  "schemaValue s c = map (rowValue s) (schemaArrs s ! c)"

definition validRow :: "store \<Rightarrow> nat \<Rightarrow> bool" where
  "validRow s r \<longleftrightarrow> r < length (rowArrs s) \<and> (\<forall>a\<in>set (rowArrs s ! r). a < length (objs s))"

definition validSchema :: "store \<Rightarrow> nat \<Rightarrow> bool" where
  "validSchema s c \<longleftrightarrow> c < length (schemaArrs s) \<and> (\<forall>r\<in>set (schemaArrs s ! c). validRow s r)"

text \<open>
  The console read through the store; \<open>writes s s' w\<close> for "from \<open>s\<close> to \<open>s'\<close> the
  warnings \<open>w\<close> were added to the console"; \<open>agrees\<close> for "the store-level result is
  the value-level outcome": the same error, or a valid reference to the value returned,
  and the same warnings. A callback on element references refines a function on element
  values when it leaves existing cells alone and agrees with it on every valid
  reference.
\<close>

definition logValue :: "store \<Rightarrow> diag list" where
  "logValue s = map (\<lambda>(p, a). Warn p (objs s ! a)) (console s)"

definition validConsole :: "store \<Rightarrow> bool" where
  "validConsole s \<longleftrightarrow> (\<forall>(p, a)\<in>set (console s). a < length (objs s))"

definition writes :: "store \<Rightarrow> store \<Rightarrow> diag list \<Rightarrow> bool" where
  "writes s s' w \<longleftrightarrow> (validConsole s \<longrightarrow> validConsole s' \<and> logValue s' = logValue s @ w)"

definition agrees ::
    "(store \<Rightarrow> 'r \<Rightarrow> bool) \<Rightarrow> (store \<Rightarrow> 'r \<Rightarrow> 'v) \<Rightarrow> store \<Rightarrow> 'r result \<Rightarrow> 'v outcome \<Rightarrow> bool"
  where
  "agrees V \<alpha> s res out \<longleftrightarrow>
     (case fst res of
        Inl e \<Rightarrow> fst out = Inl e
      | Inr b \<Rightarrow> V (snd res) b \<and> fst out = Inr (\<alpha> (snd res) b))
     \<and> writes s (snd res) (snd out)"

definition validObj :: "store \<Rightarrow> nat \<Rightarrow> bool" where
  "validObj s a \<longleftrightarrow> a < length (objs s)"

definition objValue :: "store \<Rightarrow> nat \<Rightarrow> jsobject" where
  "objValue s a = objs s ! a"

definition refinesEl ::
    "(nat \<Rightarrow> store \<Rightarrow> nat result) \<Rightarrow> (element \<Rightarrow> element outcome) \<Rightarrow> bool" where
  "refinesEl f G \<longleftrightarrow>
     (\<forall>a t. unchanged t (snd (f a t))) \<and>
     (\<forall>a t. validObj t a \<longrightarrow> agrees validObj objValue t (f a t) (G (objValue t a)))"

section \<open>Facts about values and objects\<close>

lemma falsy_iff:
  "\<not> truthy v \<longleftrightarrow> v \<in> {JUndefined, JNull, JBool False, JNum ''0'', JNum ''NaN'', JStr []}"
  by (cases v) auto

lemma hasOwn_map_of: "hasOwn obj k \<longleftrightarrow> map_of (props obj) k \<noteq> None"
  by (simp add: hasOwn_def map_of_eq_None_iff)

text \<open>An own property is found by \<^verbatim>\<open>in\<close>, and read without looking at the prototype.\<close>

lemma hasOwn_inProp: "hasOwn obj k \<Longrightarrow> inProp h obj k"
  by (simp add: inProp_def)

lemma getProp_own: "map_of (props obj) k = Some v \<Longrightarrow> getProp h obj k = v"
  by (simp add: getProp_def)

lemma getProp_spread_own: "hasOwn obj k \<Longrightarrow> getProp h (spread h obj) k = getProp h obj k"
  by (auto simp: getProp_def spread_def hasOwn_map_of)

lemma insertIndexed_map_of:
  "k \<notin> set (map fst ps) \<Longrightarrow> map_of (insertIndexed n k v ps) = (map_of ps)(k \<mapsto> v)"
  by (induction ps) (auto simp: fun_upd_twist split: option.splits)

lemma insertIndexed_keys:
  "set (map fst (insertIndexed n k v ps)) = insert k (set (map fst ps))"
  by (induction ps) (auto split: option.splits)

lemma append_map_of:
  "k \<notin> set (map fst ps) \<Longrightarrow> map_of (ps @ [(k, v)]) = (map_of ps)(k \<mapsto> v)"
  by (induction ps) (auto simp: fun_upd_twist)

lemma defineOwn_map_of: "map_of (props (defineOwn k v obj)) = (map_of (props obj))(k \<mapsto> v)"
proof (cases "hasOwn obj k")
  case True
  then show ?thesis by (simp add: defineOwn_def update_conv')
next
  case False
  then have k: "k \<notin> set (map fst (props obj))" by (simp add: hasOwn_def)
  show ?thesis
  proof (cases "arrayIndex k")
    case None
    with False show ?thesis
      by (simp add: defineOwn_def append_map_of [OF k] del: map_of_append)
  next
    case (Some n)
    with False show ?thesis
      by (simp add: defineOwn_def insertIndexed_map_of [OF k])
  qed
qed

lemma defineOwn_keys:
  "set (map fst (props (defineOwn k v obj))) = insert k (set (map fst (props obj)))"
proof (cases "hasOwn obj k")
  case True
  then have "k \<in> set (map fst (props obj))" by (simp add: hasOwn_def)
  with True show ?thesis
    by (simp add: defineOwn_def update_keys insert_absorb del: set_map)
next
  case False
  then show ?thesis
    by (cases "arrayIndex k") (simp_all add: defineOwn_def insertIndexed_keys del: set_map)
qed

lemma defineOwn_proto: "proto (defineOwn k v obj) = proto obj"
  by (simp add: defineOwn_def)

lemma defineOwn_existing:
  "hasOwn obj k \<Longrightarrow> props (defineOwn k v obj) = AList.update k v (props obj)"
  by (simp add: defineOwn_def)

lemma setProp_existing: "hasOwn obj k \<Longrightarrow> setProp h k v obj = Inr (defineOwn k v obj)"
  by (simp add: setProp_def)

lemma andThen_Inl: "andThen (Inl e, w) f = (Inl e, w)"
  by (simp add: andThen_def)

lemma andThen_Inr: "andThen (Inr x, w) f = (fst (f x), w @ snd (f x))"
  by (simp add: andThen_def split_beta)

lemma fst_andThen:
  "fst (andThen m f) = (case fst m of Inl e \<Rightarrow> Inl e | Inr x \<Rightarrow> fst (f x))"
  by (cases m) (auto simp: andThen_def split: sum.splits prod.splits)

section \<open>Facts about the walker\<close>

text \<open>When no call throws, the walker returns the list of the results and all warnings.\<close>

lemma mapLogged_returns:
  "\<forall>x\<in>set xs. fst (f x) = Inr (g x) \<Longrightarrow>
     mapLogged f xs = (Inr (map g xs), concat (map (\<lambda>x. snd (f x)) xs))"
proof (induction xs)
  case Nil
  show ?case by simp
next
  case (Cons x xs)
  then have "f x = (Inr (g x), snd (f x))"
    by (simp add: prod_eq_iff)
  with Cons show ?case
    by (simp add: andThen_def split_beta)
qed

text \<open>When the walker returns, the result has one entry for each entry of the input.\<close>

lemma mapLogged_length: "fst (mapLogged f xs) = Inr ys \<Longrightarrow> length ys = length xs"
proof (induction xs arbitrary: ys)
  case Nil
  then show ?case by simp
next
  case (Cons x xs)
  then show ?case
    by (auto simp: andThen_def split: prod.splits sum.splits)
qed

lemma mapLogged_results:
  "fst (mapLogged f xs) = Inr ys \<Longrightarrow> list_all2 (\<lambda>x y. fst (f x) = Inr y) xs ys"
proof (induction xs arbitrary: ys)
  case Nil
  then show ?case by simp
next
  case (Cons x xs)
  then show ?case
    by (auto simp: andThen_def split: prod.splits sum.splits)
qed

lemma mapElementsInSchema_shape:
  assumes "fst (mapElementsInSchema schema fn) = Inr schema'"
  shows "map length schema' = map length schema"
proof -
  from assms have "list_all2 (\<lambda>row row'. fst (mapLogged (\<lambda>el. fn el) row) = Inr row') schema schema'"
    unfolding mapElementsInSchema_def by (rule mapLogged_results)
  then have "list_all2 (\<lambda>row row'. length row' = length row) schema schema'"
    by (rule list_all2_mono) (simp add: mapLogged_length)
  then show ?thesis
    by (induction rule: list_all2_induct) simp_all
qed

lemma mapElementsInSchema_returns:
  assumes "\<forall>row\<in>set schema. \<forall>el\<in>set row. fst (fn el) = Inr (g el)"
  shows "mapElementsInSchema schema fn =
    (Inr (map (map g) schema), concat (map (\<lambda>row. concat (map (\<lambda>el. snd (fn el)) row)) schema))"
proof -
  have "\<forall>row\<in>set schema. mapLogged (\<lambda>el. fn el) row
      = (Inr (map g row), concat (map (\<lambda>el. snd (fn el)) row))"
    using assms by (simp add: mapLogged_returns)
  then have "\<forall>row\<in>set schema. fst (mapLogged (\<lambda>el. fn el) row) = Inr (map g row)"
    and s: "\<forall>row\<in>set schema. snd (mapLogged (\<lambda>el. fn el) row) = concat (map (\<lambda>el. snd (fn el)) row)"
    by simp_all
  from mapLogged_returns [of schema "\<lambda>row. mapLogged (\<lambda>el. fn el) row" "map g", OF this(1)] s
  show ?thesis
    by (simp add: mapElementsInSchema_def cong: map_cong)
qed

section \<open>The static loop\<close>

text \<open>
  Whatever the earlier keys are, when a static mapping with at least one key returns, it
  returns the walk of the \<^emph>\<open>input\<close> schema for its last key.
\<close>

lemma mapPropertiesLoop_last:
  assumes "fst (mapPropertiesLoop h schema (m @ [(prop, d)]) acc) = Inr r"
  shows "\<exists>s. r = Some s
    \<and> fst (mapElementsInSchema schema (\<lambda>el. replacePropInElement h el prop d)) = Inr s"
  using assms
proof (induction m arbitrary: acc)
  case Nil
  then show ?case
    by (auto simp: fst_andThen split: sum.splits)
next
  case (Cons p m)
  obtain k d' where p: "p = (k, d')" by (cases p)
  from Cons.prems obtain s' where
    "fst (mapPropertiesLoop h schema (m @ [(prop, d)]) (Some s')) = Inr r"
    by (auto simp: p fst_andThen split: sum.splits)
  then show ?case by (rule Cons.IH)
qed

lemma mapProperties_static_last:
  assumes "fst (mapProperties h schema (MPStatic (m @ [(prop, d)]))) = Inr r"
  shows "\<exists>s. r = Some s
    \<and> fst (mapElementsInSchema schema (\<lambda>el. replacePropInElement h el prop d)) = Inr s"
  using assms by (simp add: mapProperties_def mapPropertiesLoop_last)

lemma mapProperties_static_empty: "mapProperties h schema (MPStatic []) = (Inr None, [])"
  by (simp add: mapProperties_def)

text \<open>
  Outside the empty static mapping, when \<^verbatim>\<open>mapProperties\<close> returns, it returns a
  schema of the shape of its input, and so does \<^verbatim>\<open>mapComps\<close>.
\<close>

lemma mapProperties_shape:
  assumes "mp \<noteq> MPStatic []" and "fst (mapProperties h schema mp) = Inr r"
  shows "map_option (map length) r = Some (map length schema)"
proof (cases mp)
  case MPNone
  with assms(2) show ?thesis by (auto simp: mapProperties_def)
next
  case (MPFun fn)
  with assms(2) show ?thesis
    by (auto simp: mapProperties_def mapPropertiesWithUserFunction_def fst_andThen
        mapElementsInSchema_shape split: sum.splits)
next
  case (MPStatic m)
  with assms(1) have "m \<noteq> []" by simp
  then obtain m' p where m: "m = m' @ [p]"
    by (metis rev_exhaust)
  obtain k d where p: "p = (k, d)" by (cases p)
  from mapProperties_static_last [of h schema m' k d r] assms(2) MPStatic m p
  show ?thesis
    by (auto simp: mapElementsInSchema_shape)
qed

lemma mapComps_shape:
  "fst (mapComps h schema mapComponents) = Inr schema' \<Longrightarrow> map length schema' = map length schema"
  unfolding mapComps_def by (rule mapElementsInSchema_shape)

section \<open>Facts about the component mapper\<close>

lemma mapCompsElement_falsy:
  assumes "toPropertyKey h (getProp h el ''component'') = Inr k"
    and "\<not> truthy (getProp h mapComponents k)"
  shows "mapCompsElement h mapComponents el = Inr (spread h el)"
  using assms by (simp add: mapCompsElement_def)

lemma mapCompsElement_truthy:
  assumes "toPropertyKey h (getProp h el ''component'') = Inr k"
    and "truthy (getProp h mapComponents k)"
  shows "mapCompsElement h mapComponents el
    = Inr (defineOwn ''component'' (getProp h mapComponents k) (spread h el))"
  using assms by (simp add: mapCompsElement_def)

text \<open>
  When every lookup is falsy, as it is in a table that has no own entries and inherits
  none of the component tags, the component mapper returns copies of the elements with
  their own properties.
\<close>

lemma mapComps_all_falsy:
  assumes "\<forall>row\<in>set schema. \<forall>el\<in>set row.
      \<exists>k. toPropertyKey h (getProp h el ''component'') = Inr k
        \<and> \<not> truthy (getProp h mapComponents k)"
  shows "mapComps h schema mapComponents = (Inr (map (map (spread h)) schema), [])"
proof -
  have "\<forall>row\<in>set schema. \<forall>el\<in>set row.
      fst (mapCompsElement h mapComponents el, []::diag list) = Inr (spread h el)"
  proof (intro ballI)
    fix row el
    assume "row \<in> set schema" and "el \<in> set row"
    with assms obtain k where "toPropertyKey h (getProp h el ''component'') = Inr k"
      and "\<not> truthy (getProp h mapComponents k)"
      by blast
    then show "fst (mapCompsElement h mapComponents el, []::diag list) = Inr (spread h el)"
      by (simp add: mapCompsElement_falsy)
  qed
  from mapElementsInSchema_returns [OF this] show ?thesis
    by (simp add: mapComps_def)
qed

lemmas example_defs =
  exampleHost_def plain_def objectPrototypeProps_def nativeNames_def
  inProp_def hasOwn_def getProp_def inherited_def protoValue_def spread_def deleteOwn_def
  defineOwn_def setProp_def arrayIndex_def digitValue_def andThen_def

section \<open>The end-to-end scenario\<close>

text \<open>
  C1. The scenario of the specification: the row
  \<^verbatim>\<open>[{model:"firstName", type:"FormText", label:"First Name"}]\<close> with
  \<^verbatim>\<open>mapProps: {type:'component', label:false}\<close> and
  \<^verbatim>\<open>mapComponents: {FormText:'BaseInput'}\<close>. The code returns the element
  \<^verbatim>\<open>{model:"firstName", type:"FormText"}\<close>: only the last key, \<^verbatim>\<open>label\<close>, has been
  applied, \<^verbatim>\<open>type\<close> is still there, and no \<^verbatim>\<open>component\<close> exists for the table to
  remap. The claimed output \<^verbatim>\<open>{model:"firstName", component:"BaseInput"}\<close> is not
  produced.
\<close>

theorem LookupPlugin_scenario_output:
  "LookupPlugin exampleHost (plain [(''FormText'', JStr ''BaseInput'')])
     (MPStatic [(''type'', DVal (JStr ''component'')), (''label'', DVal (JBool False))])
     [[plain [(''model'', JStr ''firstName''), (''type'', JStr ''FormText''),
              (''label'', JStr ''First Name'')]]]
   = (Inr [[plain [(''model'', JStr ''firstName''), (''type'', JStr ''FormText'')]]], [])"
  by (simp add: LookupPlugin_def mapProperties_def mapComps_def mapElementsInSchema_def
      replacePropInElement_def replaceWith_def mapCompsElement_def example_defs)

text \<open>
  C2. A static mapping with two keys, \<^verbatim>\<open>{a:'x', b:'y'}\<close>, on the schema
  \<^verbatim>\<open>[[{a:1, b:2}]]\<close>: the walk for \<^verbatim>\<open>b\<close> is applied to the input schema, not to the
  result of the walk for \<^verbatim>\<open>a\<close>, so the result is \<^verbatim>\<open>[[{a:1, y:2}]]\<close> and the rewrite
  of \<^verbatim>\<open>a\<close> is lost. Sequential application would give \<^verbatim>\<open>[[{x:1, y:2}]]\<close>.
\<close>

theorem mapProperties_two_keys_keeps_last_only:
  "mapProperties exampleHost [[plain [(''a'', JNum ''1''), (''b'', JNum ''2'')]]]
     (MPStatic [(''a'', DVal (JStr ''x'')), (''b'', DVal (JStr ''y''))])
   = (Inr (Some [[plain [(''a'', JNum ''1''), (''y'', JNum ''2'')]]]), [])"
  by (simp add: mapProperties_def mapElementsInSchema_def replacePropInElement_def
      replaceWith_def example_defs)

text \<open>
  C3. With the empty static mapping \<^verbatim>\<open>{}\<close> the loop never assigns \<open>schemaCopy\<close>:
  \<^verbatim>\<open>mapProperties\<close> returns \<^verbatim>\<open>undefined\<close>, not the input schema, and the pipeline then
  throws.
\<close>

theorem mapProperties_empty_static_undefined:
  "mapProperties exampleHost [[plain [(''model'', JStr ''firstName'')]]] (MPStatic [])
     = (Inr None, [])
   \<and> LookupPlugin exampleHost (plain []) (MPStatic []) [[plain [(''model'', JStr ''firstName'')]]]
       = (Inl TypeError, [])"
  by (simp add: mapProperties_def LookupPlugin_def andThen_def)

text \<open>
  C4. The shape of the schema is lost with the empty static mapping: the input has two
  rows, of one and two elements, and the result of \<^verbatim>\<open>mapProperties\<close> is
  \<^verbatim>\<open>undefined\<close>, which has no rows at all. (With every other mapping, and in
  \<^verbatim>\<open>mapComps\<close>, a schema that is returned has the shape of the input: lemmas
  \<open>mapProperties_shape\<close> and \<open>mapComps_shape\<close>.)
\<close>

theorem mapProperties_empty_static_shape_lost:
  "map_sum id (map_option (map length))
     (fst (mapProperties exampleHost
             [[plain [(''model'', JStr ''a'')]],
              [plain [(''model'', JStr ''b'')], plain [(''model'', JStr ''c'')]]]
             (MPStatic [])))
   \<noteq> Inr (Some [1, 2])"
  by (simp add: mapProperties_def)

section \<open>Properties of the rewriter\<close>

text \<open>
  C5. When the directive is a function and its result on the element is falsy
  (\<^verbatim>\<open>false\<close>, \<^verbatim>\<open>undefined\<close>, \<^verbatim>\<open>null\<close>, a zero, \<^verbatim>\<open>NaN\<close> or the empty string: lemma
  \<open>falsy_iff\<close>), the rewriter returns the element as it is, whether or not it has the
  property, and writes nothing to the console: nothing is deleted and nothing is renamed.
\<close>

theorem replacePropInElement_function_falsy:
  "\<not> truthy (f el) \<Longrightarrow> replacePropInElement h el prop (DFun f) = (Inr el, [])"
  by (simp add: replacePropInElement_def)

theorem replacePropInElement_function_falsy_witness:
  "\<not> truthy ((\<lambda>el. JBool False) (plain [(''label'', JStr ''First Name'')]))
   \<and> replacePropInElement exampleHost (plain [(''label'', JStr ''First Name'')]) ''label''
       (DFun (\<lambda>el. JBool False))
     = (Inr (plain [(''label'', JStr ''First Name'')]), [])"
  using replacePropInElement_function_falsy
    [of "\<lambda>el. JBool False" "plain [(''label'', JStr ''First Name'')]" exampleHost "''label''"]
  by simp

text \<open>
  C6. When the element has the property as an own property and the directive is the
  literal \<^verbatim>\<open>false\<close>, the rewriter returns a copy of the element without that
  property: a literal object whose own properties are those of the element, with their
  order and values, except the deleted one; no key is added, and nothing is written to
  the console.
\<close>

theorem replacePropInElement_false_deletes:
  assumes "hasOwn el prop"
  shows "replacePropInElement h el prop (DVal (JBool False))
      = (Inr (deleteOwn prop (spread h el)), [])
    \<and> props (deleteOwn prop (spread h el)) = AList.delete prop (props el)
    \<and> proto (deleteOwn prop (spread h el)) = PrototypeRef (objectPrototype h)
    \<and> \<not> hasOwn (deleteOwn prop (spread h el)) prop
    \<and> map fst (props (deleteOwn prop (spread h el))) = removeAll prop (map fst (props el))
    \<and> map_of (props (deleteOwn prop (spread h el))) = (map_of (props el))(prop := None)"
proof -
  have r: "replacePropInElement h el prop (DVal (JBool False))
      = (Inr (deleteOwn prop (spread h el)), [])"
    using hasOwn_inProp [OF assms, of h]
    by (simp add: replacePropInElement_def replaceWith_def)
  have p: "props (deleteOwn prop (spread h el)) = AList.delete prop (props el)"
    "proto (deleteOwn prop (spread h el)) = PrototypeRef (objectPrototype h)"
    by (simp_all add: deleteOwn_def spread_def)
  show ?thesis
    by (simp add: r p hasOwn_def delete_keys delete_conv')
qed

theorem replacePropInElement_false_deletes_witness:
  "hasOwn (plain [(''model'', JStr ''firstName''), (''label'', JStr ''First Name'')]) ''label''
   \<and> replacePropInElement exampleHost
       (plain [(''model'', JStr ''firstName''), (''label'', JStr ''First Name'')]) ''label''
       (DVal (JBool False))
     = (Inr (plain [(''model'', JStr ''firstName'')]), [])"
  using replacePropInElement_false_deletes
    [of "plain [(''model'', JStr ''firstName''), (''label'', JStr ''First Name'')]" "''label''"
        exampleHost]
  by (simp add: hasOwn_def plain_def deleteOwn_def spread_def exampleHost_def)

text \<open>
  C7, as stated, fails for a name the element does not have but inherits: the test
  \<^verbatim>\<open>prop in el\<close> finds \<^verbatim>\<open>toString\<close> on \<^verbatim>\<open>{model:"m"}\<close> through
  \<^verbatim>\<open>Object.prototype\<close>, and the rewriter returns a new object with the key \<^verbatim>\<open>tag\<close>
  holding the inherited function, without a warning. And where no global \<^verbatim>\<open>process\<close>
  is defined, the rewriter fails on a property that is missing: the guard of the
  warning throws a \<^verbatim>\<open>ReferenceError\<close>.
\<close>

theorem replacePropInElement_inherited_name_counterexample:
  "\<not> hasOwn (plain [(''model'', JStr ''m'')]) ''toString''
   \<and> replacePropInElement exampleHost (plain [(''model'', JStr ''m'')]) ''toString''
       (DVal (JStr ''tag''))
     = (Inr (plain [(''model'', JStr ''m''), (''tag'', JRef 9)]), [])
   \<and> \<not> inProp (exampleHost\<lparr>processGlobal := NoProcess\<rparr>)
         (plain [(''model'', JStr ''m'')]) ''label''
   \<and> replacePropInElement (exampleHost\<lparr>processGlobal := NoProcess\<rparr>)
       (plain [(''model'', JStr ''m'')]) ''label'' (DVal (JStr ''tag''))
     = (Inl ReferenceError, [])"
  by (simp add: replacePropInElement_def replaceWith_def example_defs)

text \<open>
  C7, amended. When the property name is not found on the element by \<^verbatim>\<open>in\<close> (it is
  neither an own property nor inherited through the prototype chain), the directive is
  not a function or is a function whose result on the element is truthy, and a global
  \<^verbatim>\<open>process\<close> is defined, the rewriter returns the element itself. It writes one
  warning to the console when \<^verbatim>\<open>process.env\<close> is truthy and
  \<^verbatim>\<open>process.env.NODE_ENV\<close> is not \<^verbatim>\<open>'production'\<close>, and nothing otherwise. On the
  store it returns the reference it was given and leaves every cell as it was.
\<close>

theorem replacePropInElement_missing_property:
  assumes "\<not> inProp h el prop"
    and "processGlobal h \<noteq> NoProcess"
    and "d = DVal v \<or> (d = DFun f \<and> truthy (f el))"
  shows "replacePropInElement h el prop d
      = (Inr el,
         case processGlobal h of
           NodeEnv e \<Rightarrow> if e \<noteq> JStr ''production'' then [Warn prop el] else []
         | _ \<Rightarrow> [])
    \<and> (objs s ! a = el \<longrightarrow>
         replacePropInElement_st h a prop d s
           = (Inr a,
              case processGlobal h of
                NodeEnv e \<Rightarrow> if e \<noteq> JStr ''production'' then warn prop a s else s
              | _ \<Rightarrow> s))"
  using assms
  by (cases "processGlobal h")
    (auto simp: replacePropInElement_def replaceWith_def replacePropInElement_st_def
      replaceWith_st_def)

theorem replacePropInElement_missing_property_witness:
  "\<not> inProp exampleHost (plain [(''model'', JStr ''firstName'')]) ''label''
   \<and> processGlobal exampleHost \<noteq> NoProcess
   \<and> replacePropInElement exampleHost (plain [(''model'', JStr ''firstName'')]) ''label''
       (DVal (JStr ''tag''))
     = (Inr (plain [(''model'', JStr ''firstName'')]),
        [Warn ''label'' (plain [(''model'', JStr ''firstName'')])])
   \<and> replacePropInElement_st exampleHost 0 ''label'' (DVal (JStr ''tag''))
       \<lparr>objs = [plain [(''model'', JStr ''firstName'')]], rowArrs = [[0]],
        schemaArrs = [[0]], console = []\<rparr>
     = (Inr 0,
        \<lparr>objs = [plain [(''model'', JStr ''firstName'')]], rowArrs = [[0]],
         schemaArrs = [[0]], console = [(''label'', 0)]\<rparr>)"
  using replacePropInElement_missing_property
    [of exampleHost "plain [(''model'', JStr ''firstName'')]" "''label''"
        "DVal (JStr ''tag'')" "JStr ''tag''" _
        "\<lparr>objs = [plain [(''model'', JStr ''firstName'')]], rowArrs = [[0]],
          schemaArrs = [[0]], console = []\<rparr>" 0]
  by (simp add: example_defs warn_def)

text \<open>
  C9. When the element has the property, and the new name \<open>s\<close> (a string directive, or
  the key of a truthy function result) is the name of another own property of the
  element, the value of that other property is replaced by the captured value of the
  renamed one: under \<open>s\<close> the result holds the old value of \<open>prop\<close>, \<open>prop\<close> is gone,
  every other own property is as before, no key is added, and nothing is written to the
  console: no warning and no error.
\<close>

theorem replacePropInElement_collision_overwrites:
  assumes "hasOwn el prop" and "hasOwn el s" and "s \<noteq> prop"
    and "d = DVal (JStr s) \<or> (d = DFun f \<and> truthy (f el) \<and> toPropertyKey h (f el) = Inr s)"
  shows "replacePropInElement h el prop d
      = (Inr \<lparr>props = AList.update s (getProp h el prop) (AList.delete prop (props el)),
               proto = PrototypeRef (objectPrototype h)\<rparr>, [])
    \<and> getProp h \<lparr>props = AList.update s (getProp h el prop) (AList.delete prop (props el)),
                  proto = PrototypeRef (objectPrototype h)\<rparr> s = getProp h el prop
    \<and> map_of (AList.update s (getProp h el prop) (AList.delete prop (props el)))
        = (map_of (props el))(prop := None, s \<mapsto> getProp h el prop)
    \<and> set (map fst (AList.update s (getProp h el prop) (AList.delete prop (props el))))
        = set (map fst (props el)) - {prop}"
proof -
  let ?c = "deleteOwn prop (spread h el)"
  let ?ps = "AList.update s (getProp h el prop) (AList.delete prop (props el))"
  let ?r = "\<lparr>props = ?ps, proto = PrototypeRef (objectPrototype h)\<rparr>"
  have own: "hasOwn ?c s"
    using assms(2,3) by (simp add: hasOwn_def deleteOwn_def spread_def delete_keys)
  have "setProp h s (getProp h el prop) ?c = Inr (defineOwn s (getProp h el prop) ?c)"
    using own by (rule setProp_existing)
  moreover have "defineOwn s (getProp h el prop) ?c = ?r"
    using own by (simp add: defineOwn_def) (simp add: deleteOwn_def spread_def)
  ultimately have set: "setProp h s (getProp h el prop) ?c = Inr ?r"
    by simp
  have r: "replacePropInElement h el prop d = (Inr ?r, [])"
    using assms(4) hasOwn_inProp [OF assms(1), of h] set
    by (auto simp: replacePropInElement_def replaceWith_def Let_def)
  have m: "map_of ?ps = (map_of (props el))(prop := None, s \<mapsto> getProp h el prop)"
    by (simp add: update_conv' delete_conv')
  have g: "getProp h ?r s = getProp h el prop"
    by (rule getProp_own) (simp add: m)
  have "set (map fst ?ps) = insert s (set (map fst (props el)) - {prop})"
    by (auto simp: update_keys delete_keys)
  with assms(2,3) have k: "set (map fst ?ps) = set (map fst (props el)) - {prop}"
    by (auto simp: hasOwn_def)
  show ?thesis
    by (simp only: r m g k)
qed

theorem replacePropInElement_collision_overwrites_witness:
  "hasOwn (plain [(''type'', JStr ''FormText''), (''component'', JStr ''Old'')]) ''type''
   \<and> hasOwn (plain [(''type'', JStr ''FormText''), (''component'', JStr ''Old'')]) ''component''
   \<and> replacePropInElement exampleHost
       (plain [(''type'', JStr ''FormText''), (''component'', JStr ''Old'')]) ''type''
       (DVal (JStr ''component''))
     = (Inr (plain [(''component'', JStr ''FormText'')]), [])"
  using replacePropInElement_collision_overwrites
    [of "plain [(''type'', JStr ''FormText''), (''component'', JStr ''Old'')]" "''type''"
       "''component''" "DVal (JStr ''component'')" _ exampleHost]
  by (simp add: hasOwn_def plain_def getProp_def exampleHost_def)

section \<open>Falsy and absent entries of the component table\<close>

text \<open>
  C10, as stated, fails for an element without a \<^verbatim>\<open>component\<close> property when the
  table has an entry under the key \<^verbatim>\<open>undefined\<close>: \<^verbatim>\<open>el.component\<close> is
  \<^verbatim>\<open>undefined\<close>, \<^verbatim>\<open>mapComponents[undefined]\<close> reads that entry, and the element
  \<^verbatim>\<open>{model:"firstName"}\<close> comes back with \<^verbatim>\<open>component: "BaseInput"\<close> added. Nor is
  a falsy entry always like an absent one: for the tag \<^verbatim>\<open>constructor\<close> the table
  \<^verbatim>\<open>{constructor: ''}\<close> leaves the element as it is, and the table \<^verbatim>\<open>{}\<close> reads the
  function it inherits from \<^verbatim>\<open>Object.prototype\<close> and stores it as the component.
\<close>

theorem mapCompsElement_undefined_key_counterexample:
  "\<not> inProp exampleHost (plain [(''model'', JStr ''firstName'')]) ''component''
   \<and> mapCompsElement exampleHost (plain [(''undefined'', JStr ''BaseInput'')])
        (plain [(''model'', JStr ''firstName'')])
       = Inr (plain [(''model'', JStr ''firstName''), (''component'', JStr ''BaseInput'')])
   \<and> mapCompsElement exampleHost (plain [(''constructor'', JStr [])])
        (plain [(''component'', JStr ''constructor'')])
       = Inr (plain [(''component'', JStr ''constructor'')])
   \<and> mapCompsElement exampleHost (plain [])
        (plain [(''component'', JStr ''constructor'')])
       = Inr (plain [(''component'', JRef 1)])"
  by (simp add: mapCompsElement_def example_defs)

lemma defineOwn_fresh_neq: "\<not> hasOwn obj k \<Longrightarrow> defineOwn k v obj \<noteq> obj"
proof
  assume a: "\<not> hasOwn obj k" and "defineOwn k v obj = obj"
  then have "set (map fst (props (defineOwn k v obj))) = set (map fst (props obj))"
    by simp
  with a show False
    by (simp add: defineOwn_keys hasOwn_def del: set_map) auto
qed

lemma getProp_missing: "\<not> inProp h obj k \<Longrightarrow> getProp h obj k = JUndefined"
  by (simp add: inProp_def getProp_def hasOwn_map_of)

text \<open>
  C10, amended. For every element whose lookup \<^verbatim>\<open>mapComponents[el.component]\<close> is
  falsy, the result is a copy of the element: a newly allocated literal object with the
  own properties of the element, equal to the element when the element is itself a
  literal object, while the element's cell is left as it was. The result is the same
  for the table without its own entry under that key, provided the lookup in that table
  is falsy too, that is, the table inherits nothing truthy under the key. An element
  on which \<^verbatim>\<open>component\<close> is not found is looked up under the key \<^verbatim>\<open>undefined\<close>, so
  it is copied unchanged exactly when the table's entry under that key is falsy.
\<close>

theorem mapCompsElement_falsy_target:
  "(toPropertyKey h (getProp h el ''component'') = Inr k
      \<and> \<not> truthy (getProp h mapComponents k) \<longrightarrow>
        mapCompsElement h mapComponents el = Inr (spread h el)
        \<and> props (spread h el) = props el
        \<and> (proto el = PrototypeRef (objectPrototype h) \<longrightarrow> spread h el = el)
        \<and> (objs s ! a = el \<longrightarrow>
             mapCompsElement_st h mapComponents a s
               = (Inr (length (objs s)), s\<lparr>objs := objs s @ [spread h el]\<rparr>))
        \<and> (\<not> truthy (getProp h (deleteOwn k mapComponents) k) \<longrightarrow>
             mapCompsElement h (deleteOwn k mapComponents) el = Inr (spread h el)))
   \<and> (\<not> inProp h el ''component'' \<longrightarrow>
        (mapCompsElement h mapComponents el = Inr (spread h el)
           \<longleftrightarrow> \<not> truthy (getProp h mapComponents ''undefined'')))"
proof (intro conjI impI)
  assume a: "toPropertyKey h (getProp h el ''component'') = Inr k
    \<and> \<not> truthy (getProp h mapComponents k)"
  then show "mapCompsElement h mapComponents el = Inr (spread h el)"
    by (simp add: mapCompsElement_falsy)
  show "props (spread h el) = props el"
    by (simp add: spread_def)
  {
    assume "proto el = PrototypeRef (objectPrototype h)"
    then show "spread h el = el"
      by (simp add: spread_def)
  }
  {
    assume "objs s ! a = el"
    with a show "mapCompsElement_st h mapComponents a s
        = (Inr (length (objs s)), s\<lparr>objs := objs s @ [spread h el]\<rparr>)"
      by (simp add: mapCompsElement_st_def newObject_def)
  }
  {
    assume "\<not> truthy (getProp h (deleteOwn k mapComponents) k)"
    with a show "mapCompsElement h (deleteOwn k mapComponents) el = Inr (spread h el)"
      by (simp add: mapCompsElement_falsy)
  }
next
  assume a: "\<not> inProp h el ''component''"
  then have k: "toPropertyKey h (getProp h el ''component'') = Inr ''undefined''"
    by (simp add: getProp_missing)
  from a have "\<not> hasOwn (spread h el) ''component''"
    by (simp add: inProp_def hasOwn_def spread_def)
  from defineOwn_fresh_neq [OF this] k
  show "mapCompsElement h mapComponents el = Inr (spread h el)
      \<longleftrightarrow> \<not> truthy (getProp h mapComponents ''undefined'')"
    by (simp add: mapCompsElement_def)
qed

theorem mapCompsElement_falsy_target_witness:
  "toPropertyKey exampleHost
       (getProp exampleHost (plain [(''component'', JStr ''FormText'')]) ''component'')
     = Inr ''FormText''
   \<and> \<not> truthy (getProp exampleHost (plain [(''FormText'', JStr [])]) ''FormText'')
   \<and> mapCompsElement exampleHost (plain [(''FormText'', JStr [])])
        (plain [(''component'', JStr ''FormText'')])
       = Inr (plain [(''component'', JStr ''FormText'')])
   \<and> mapCompsElement_st exampleHost (plain [(''FormText'', JStr [])]) 0
        \<lparr>objs = [plain [(''component'', JStr ''FormText'')]], rowArrs = [[0]],
         schemaArrs = [[0]], console = []\<rparr>
       = (Inr 1,
          \<lparr>objs = [plain [(''component'', JStr ''FormText'')],
                   plain [(''component'', JStr ''FormText'')]],
           rowArrs = [[0]], schemaArrs = [[0]], console = []\<rparr>)
   \<and> \<not> inProp exampleHost (plain [(''model'', JStr ''firstName'')]) ''component''
   \<and> mapCompsElement exampleHost (plain [(''FormText'', JStr [])])
        (plain [(''model'', JStr ''firstName'')])
       = Inr (plain [(''model'', JStr ''firstName'')])"
  using mapCompsElement_falsy_target
      [of exampleHost "plain [(''component'', JStr ''FormText'')]" "''FormText''"
          "plain [(''FormText'', JStr [])]"
          "\<lparr>objs = [plain [(''component'', JStr ''FormText'')]], rowArrs = [[0]],
            schemaArrs = [[0]], console = []\<rparr>" 0]
    mapCompsElement_falsy_target
      [of exampleHost "plain [(''model'', JStr ''firstName'')]" _
          "plain [(''FormText'', JStr [])]"]
  by (simp add: example_defs)

section \<open>No operation writes to a cell of its input\<close>

lemma unchanged_refl: "unchanged s s"
  by (simp add: unchanged_def)

lemma unchanged_trans: "unchanged s t \<Longrightarrow> unchanged t u \<Longrightarrow> unchanged s u"
  by (auto simp: unchanged_def intro: prefix_order.trans)

lemma list_update_end_prefix: "prefix xs ys \<Longrightarrow> length xs \<le> a \<Longrightarrow> prefix xs (ys[a := y])"
  by (auto simp: prefix_def list_update_append)

lemma newObject_unchanged: "unchanged s (snd (newObject obj s))"
  by (simp add: newObject_def unchanged_def)

lemma newRow_unchanged: "unchanged s (snd (newRow ps s))"
  by (simp add: newRow_def unchanged_def)

lemma newSchema_unchanged: "unchanged s (snd (newSchema ps s))"
  by (simp add: newSchema_def unchanged_def)

lemma warn_unchanged: "unchanged s (warn p a s)"
  by (simp add: warn_def unchanged_def)

text \<open>A write to a cell allocated after \<open>s\<close> leaves the cells of \<open>s\<close> alone.\<close>

lemma writeObject_unchanged:
  "unchanged s t \<Longrightarrow> length (objs s) \<le> a \<Longrightarrow> unchanged s (writeObject a obj t)"
  by (simp add: unchanged_def writeObject_def list_update_end_prefix)

lemma replaceWith_st_unchanged: "unchanged s (snd (replaceWith_st h el prop pr s))"
proof (cases "inProp h (objs s ! el) prop")
  case False
  then show ?thesis
    by (cases "processGlobal h") (simp_all add: replaceWith_st_def unchanged_refl warn_unchanged)
next
  case True
  let ?c = "length (objs s)"
  let ?s1 = "snd (newObject (spread h (objs s ! el)) s)"
  let ?s2 = "writeObject ?c (deleteOwn prop (objs ?s1 ! ?c)) ?s1"
  have u2: "unchanged s ?s2"
    by (rule writeObject_unchanged [OF newObject_unchanged]) simp
  have u3: "unchanged s (writeObject ?c obj ?s2)" for obj
    by (rule writeObject_unchanged [OF u2]) simp
  from True u2 u3 show ?thesis
    by (simp add: replaceWith_st_def newObject_def Let_def split: sum.splits)
qed

text \<open>When the rewriter changes anything, what it returns is a newly allocated object.\<close>

lemma replaceWith_st_fresh:
  "inProp h (objs s ! el) prop \<Longrightarrow> fst (replaceWith_st h el prop pr s) = Inr a \<Longrightarrow>
     a = length (objs s)"
  by (auto simp: replaceWith_st_def Let_def newObject_def split: sum.splits if_splits)

lemma replacePropInElement_st_unchanged:
  "unchanged s (snd (replacePropInElement_st h el prop d s))"
  by (cases d)
    (simp_all add: replacePropInElement_st_def Let_def replaceWith_st_unchanged unchanged_refl)

lemma mapArray_unchanged:
  assumes "\<And>a t. unchanged t (snd (f a t))"
  shows "unchanged s (snd (mapArray f xs s))"
proof (induction xs arbitrary: s)
  case Nil
  show ?case by (simp add: unchanged_refl)
next
  case (Cons x xs)
  have 1: "unchanged s (snd (f x s))" by (rule assms)
  have 2: "unchanged (snd (f x s)) (snd (mapArray f xs (snd (f x s))))" by (rule Cons.IH)
  note 3 = unchanged_trans [OF 1 2]
  show ?case
  proof (cases "f x s")
    case (Pair r s1)
    with 1 3 show ?thesis
      by (cases r) (auto split: prod.splits sum.splits)
  qed
qed

lemma mapRow_st_unchanged:
  assumes "\<And>a t. unchanged t (snd (fn a t))"
  shows "unchanged s (snd (mapRow_st fn row s))"
proof -
  have 1: "unchanged s (snd (mapArray fn (rowArrs s ! row) s))"
    by (rule mapArray_unchanged) (rule assms)
  show ?thesis
  proof (cases "mapArray fn (rowArrs s ! row) s")
    case (Pair r s1)
    with 1 unchanged_trans [OF _ newRow_unchanged] show ?thesis
      by (cases r) (auto simp: mapRow_st_def split_beta)
  qed
qed

lemma mapElementsInSchema_st_unchanged:
  assumes "\<And>a t. unchanged t (snd (fn a t))"
  shows "unchanged s (snd (mapElementsInSchema_st schema fn s))"
proof -
  have 1: "unchanged s (snd (mapArray (mapRow_st fn) (schemaArrs s ! schema) s))"
    by (rule mapArray_unchanged) (rule mapRow_st_unchanged, rule assms)
  show ?thesis
  proof (cases "mapArray (mapRow_st fn) (schemaArrs s ! schema) s")
    case (Pair r s1)
    with 1 unchanged_trans [OF _ newSchema_unchanged] show ?thesis
      by (cases r) (auto simp: mapElementsInSchema_st_def split_beta)
  qed
qed

lemma mapCompsElement_st_unchanged: "unchanged s (snd (mapCompsElement_st h T el s))"
  by (simp add: mapCompsElement_st_def Let_def newObject_def unchanged_def split: sum.splits)

lemma mapComps_st_unchanged: "unchanged s (snd (mapComps_st h schema T s))"
  unfolding mapComps_st_def
  by (rule mapElementsInSchema_st_unchanged) (rule mapCompsElement_st_unchanged)

lemma mapPropsForElementLoop_st_unchanged:
  "unchanged s (snd (mapPropsForElementLoop_st h el m s))"
proof (induction m arbitrary: el s)
  case Nil
  show ?case by (simp add: unchanged_refl)
next
  case (Cons p m)
  obtain k d where p: "p = (k, d)" by (cases p)
  have 1: "unchanged s (snd (replacePropInElement_st h el k d s))"
    by (rule replacePropInElement_st_unchanged)
  show ?case
  proof (cases "replacePropInElement_st h el k d s")
    case (Pair r s1)
    with 1 unchanged_trans [OF _ Cons.IH] show ?thesis
      by (cases r) (auto simp: p)
  qed
qed

lemma mapPropertiesWithUserFunction_st_unchanged:
  "unchanged s (snd (mapPropertiesWithUserFunction_st h schema fn s))"
  unfolding mapPropertiesWithUserFunction_st_def
  by (rule mapElementsInSchema_st_unchanged)
    (simp add: mapPropsForElement_st_def mapPropsForElementLoop_st_unchanged)

lemma mapPropertiesLoop_st_unchanged:
  "unchanged s (snd (mapPropertiesLoop_st h schema m acc s))"
proof (induction m arbitrary: acc s)
  case Nil
  show ?case by (simp add: unchanged_refl)
next
  case (Cons p m)
  obtain k d where p: "p = (k, d)" by (cases p)
  let ?w = "mapElementsInSchema_st schema (\<lambda>el. replacePropInElement_st h el k d) s"
  have 1: "unchanged s (snd ?w)"
    by (rule mapElementsInSchema_st_unchanged) (rule replacePropInElement_st_unchanged)
  show ?case
  proof (cases ?w)
    case (Pair r s1)
    with 1 unchanged_trans [OF _ Cons.IH] show ?thesis
      by (cases r) (auto simp: p)
  qed
qed

lemma mapProperties_st_unchanged: "unchanged s (snd (mapProperties_st h schema mp s))"
proof (cases mp)
  case MPNone
  then show ?thesis by (simp add: mapProperties_st_def unchanged_refl)
next
  case (MPStatic m)
  then show ?thesis by (simp add: mapProperties_st_def mapPropertiesLoop_st_unchanged)
next
  case (MPFun fn)
  have "unchanged s (snd (mapPropertiesWithUserFunction_st h schema fn s))"
    by (rule mapPropertiesWithUserFunction_st_unchanged)
  with MPFun show ?thesis
    by (auto simp: mapProperties_st_def split: prod.splits sum.splits)
qed

lemma LookupPlugin_st_unchanged:
  "unchanged s (snd (LookupPlugin_st h T mp schema s))"
proof (cases "mapProperties_st h schema mp s")
  case (Pair r s1)
  have 1: "unchanged s (snd (mapProperties_st h schema mp s))"
    by (rule mapProperties_st_unchanged)
  with Pair unchanged_trans [OF _ mapComps_st_unchanged] show ?thesis
    by (auto simp: LookupPlugin_st_def split: sum.splits option.splits)
qed

lemma prefix_nth: "prefix xs ys \<Longrightarrow> i < length xs \<Longrightarrow> ys ! i = xs ! i"
  by (auto simp: prefix_def nth_append)

lemma unchanged_obj: "unchanged s s' \<Longrightarrow> a < length (objs s) \<Longrightarrow> objs s' ! a = objs s ! a"
  by (simp add: unchanged_def prefix_nth)

lemma unchanged_obj_valid: "unchanged s s' \<Longrightarrow> a < length (objs s) \<Longrightarrow> a < length (objs s')"
  by (auto simp: unchanged_def dest: prefix_length_le)

lemma unchanged_rowValue:
  assumes "unchanged s s'" and "validRow s r"
  shows "rowValue s' r = rowValue s r" and "validRow s' r"
proof -
  from assms have r: "rowArrs s' ! r = rowArrs s ! r" "r < length (rowArrs s')"
    by (auto simp: unchanged_def validRow_def prefix_nth dest: prefix_length_le)
  from assms show "rowValue s' r = rowValue s r"
    by (simp add: rowValue_def r validRow_def unchanged_obj)
  from assms show "validRow s' r"
    by (auto simp: validRow_def r unchanged_obj_valid)
qed

lemma unchanged_schemaValue:
  assumes "unchanged s s'" and "validSchema s c"
  shows "schemaValue s' c = schemaValue s c" and "validSchema s' c"
proof -
  from assms have r: "schemaArrs s' ! c = schemaArrs s ! c" "c < length (schemaArrs s')"
    by (auto simp: unchanged_def validSchema_def prefix_nth dest: prefix_length_le)
  from assms show "schemaValue s' c = schemaValue s c"
    by (simp add: schemaValue_def r validSchema_def unchanged_rowValue)
  from assms show "validSchema s' c"
    by (auto simp: validSchema_def r unchanged_rowValue)
qed

text \<open>
  C8. No operation writes to a cell of its input. For every host, store, reference and
  mapping specification, the store after the property rewriter, after
  \<^verbatim>\<open>mapProperties\<close>, after \<^verbatim>\<open>mapComps\<close> and after the whole pipeline holds every
  object, row array and schema array of the store before, with the same contents,
  whether the operation returns or throws; the same is true of the schema walker for
  every callback that leaves existing cells alone. So the input schema, read through
  the store after the call, has the value it had before: all writes go to objects
  allocated during the call.
\<close>

theorem transformations_leave_input_unchanged:
  "((\<forall>a t. unchanged t (snd (fn a t))) \<longrightarrow>
       unchanged s (snd (mapElementsInSchema_st schema fn s)))
   \<and> unchanged s (snd (replacePropInElement_st h el prop d s))
   \<and> unchanged s (snd (mapProperties_st h schema mp s))
   \<and> unchanged s (snd (mapComps_st h schema mapComponents s))
   \<and> unchanged s (snd (LookupPlugin_st h mapComponents mp schema s))
   \<and> (validSchema s schema \<longrightarrow>
        schemaValue (snd (mapProperties_st h schema mp s)) schema = schemaValue s schema
        \<and> schemaValue (snd (mapComps_st h schema mapComponents s)) schema = schemaValue s schema
        \<and> schemaValue (snd (LookupPlugin_st h mapComponents mp schema s)) schema
            = schemaValue s schema)"
  using mapElementsInSchema_st_unchanged [of fn s schema]
    replacePropInElement_st_unchanged [of s h el _ d]
    unchanged_schemaValue(1) [OF mapProperties_st_unchanged [of s h schema mp]]
    unchanged_schemaValue(1) [OF mapComps_st_unchanged [of s h schema mapComponents]]
    unchanged_schemaValue(1) [OF LookupPlugin_st_unchanged [of s h mapComponents mp schema]]
    mapProperties_st_unchanged [of s h schema mp]
    mapComps_st_unchanged [of s h schema mapComponents]
    LookupPlugin_st_unchanged [of s h mapComponents mp schema]
  by blast

theorem transformations_leave_input_unchanged_witness:
  "validSchema
     \<lparr>objs = [plain [(''model'', JStr ''firstName''), (''type'', JStr ''FormText'')]],
      rowArrs = [[0]], schemaArrs = [[0]], console = []\<rparr> 0
   \<and> unchanged
        \<lparr>objs = [plain [(''model'', JStr ''firstName''), (''type'', JStr ''FormText'')]],
         rowArrs = [[0]], schemaArrs = [[0]], console = []\<rparr>
        (snd (mapElementsInSchema_st 0
               (\<lambda>el. replacePropInElement_st exampleHost el ''type'' (DVal (JBool False)))
               \<lparr>objs = [plain [(''model'', JStr ''firstName''), (''type'', JStr ''FormText'')]],
                rowArrs = [[0]], schemaArrs = [[0]], console = []\<rparr>))
   \<and> schemaValue
        (snd (LookupPlugin_st exampleHost (plain [(''FormText'', JStr ''BaseInput'')])
               (MPStatic [(''type'', DVal (JStr ''component''))]) 0
               \<lparr>objs = [plain [(''model'', JStr ''firstName''), (''type'', JStr ''FormText'')]],
                rowArrs = [[0]], schemaArrs = [[0]], console = []\<rparr>)) 0
       = [[plain [(''model'', JStr ''firstName''), (''type'', JStr ''FormText'')]]]"
  using transformations_leave_input_unchanged
    [of "\<lambda>el. replacePropInElement_st exampleHost el ''type'' (DVal (JBool False))"
        "\<lparr>objs = [plain [(''model'', JStr ''firstName''), (''type'', JStr ''FormText'')]],
          rowArrs = [[0]], schemaArrs = [[0]], console = []\<rparr>"
        0 exampleHost 0 "''type''" "DVal (JBool False)"
        "MPStatic [(''type'', DVal (JStr ''component''))]"
        "plain [(''FormText'', JStr ''BaseInput'')]"]
    replacePropInElement_st_unchanged
  by (simp add: validSchema_def validRow_def schemaValue_def rowValue_def)

section \<open>The store-level functions compute the value-level results\<close>

text \<open>
  The two embeddings agree: on a store whose schema reference is valid, each store-level
  function returns a reference to the value that the value-level function returns for
  the value of its argument, or throws the error it throws, and adds to the console the
  warnings it returns.
\<close>

lemma writes_refl: "writes s s []"
  by (simp add: writes_def)

lemma writes_trans: "writes s t v \<Longrightarrow> writes t u w \<Longrightarrow> writes s u (v @ w)"
  by (simp add: writes_def)

lemma writes_same_console:
  assumes "console s' = console s" and "prefix (objs s) (objs s')"
  shows "writes s s' []"
proof -
  have "validConsole s' \<and> logValue s' = logValue s" if v: "validConsole s"
  proof -
    have "length (objs s) \<le> length (objs s')"
      using assms(2) by (rule prefix_length_le)
    then have "\<forall>(p, a)\<in>set (console s). a < length (objs s') \<and> objs s' ! a = objs s ! a"
      using v assms(2) by (fastforce simp: validConsole_def prefix_nth)
    then show ?thesis
      by (auto simp: validConsole_def logValue_def assms(1))
  qed
  then show ?thesis by (simp add: writes_def)
qed

lemma newObject_writes: "writes s (snd (newObject e s)) []"
  by (rule writes_same_console) (simp_all add: newObject_def)

lemma newRow_writes: "writes s (snd (newRow r s)) []"
  by (rule writes_same_console) (simp_all add: newRow_def)

lemma newSchema_writes: "writes s (snd (newSchema r s)) []"
  by (rule writes_same_console) (simp_all add: newSchema_def)

lemma agrees_Inl: "agrees V \<alpha> s (Inl e, s') out \<longleftrightarrow> fst out = Inl e \<and> writes s s' (snd out)"
  by (simp add: agrees_def)

lemma agrees_Inr:
  "agrees V \<alpha> s (Inr b, s') out \<longleftrightarrow>
     V s' b \<and> fst out = Inr (\<alpha> s' b) \<and> writes s s' (snd out)"
  by (simp add: agrees_def)

lemma mapArray_agrees:
  fixes V :: "store \<Rightarrow> nat \<Rightarrow> bool" and \<alpha> :: "store \<Rightarrow> nat \<Rightarrow> 'a"
  assumes mono: "\<And>t t' a. unchanged t t' \<Longrightarrow> V t a \<Longrightarrow> V t' a \<and> \<alpha> t' a = \<alpha> t a"
    and frame: "\<And>a t. unchanged t (snd (f a t))"
    and step: "\<And>a t. V t a \<Longrightarrow> agrees V \<alpha> t (f a t) (G (\<alpha> t a))"
    and valid: "\<forall>a\<in>set xs. V s a"
  shows "agrees (\<lambda>t bs. \<forall>b\<in>set bs. V t b) (\<lambda>t. map (\<alpha> t)) s
           (mapArray f xs s) (mapLogged G (map (\<alpha> s) xs))"
  using valid
proof (induction xs arbitrary: s)
  case Nil
  show ?case by (simp add: agrees_def writes_refl)
next
  case (Cons x xs)
  from Cons.prems have vx: "V s x" by simp
  obtain r s1 where fx: "f x s = (r, s1)" by (cases "f x s")
  obtain g w where gx: "G (\<alpha> s x) = (g, w)" by (cases "G (\<alpha> s x)")
  obtain out ws where out: "mapLogged G (map (\<alpha> s) xs) = (out, ws)"
    by (cases "mapLogged G (map (\<alpha> s) xs)")
  from step [OF vx] fx gx have st: "agrees V \<alpha> s (r, s1) (g, w)" by simp
  show ?case
  proof (cases r)
    case (Inl e)
    with st have "g = Inl e" "writes s s1 w"
      by (simp_all add: agrees_Inl)
    with Inl fx gx show ?thesis
      by (simp add: agrees_Inl andThen_def)
  next
    case (Inr y)
    with st have y: "V s1 y" "g = Inr (\<alpha> s1 y)" and w1: "writes s s1 w"
      by (simp_all add: agrees_Inr)
    have u1: "unchanged s s1" using frame [of s x] fx by simp
    have rest: "\<forall>a\<in>set xs. V s1 a \<and> \<alpha> s1 a = \<alpha> s a"
      using Cons.prems mono [OF u1] by simp
    then have eq: "map (\<alpha> s1) xs = map (\<alpha> s) xs" by simp
    from rest have "\<forall>a\<in>set xs. V s1 a" by simp
    from Cons.IH [OF this] eq out
    have ih: "agrees (\<lambda>t bs. \<forall>b\<in>set bs. V t b) (\<lambda>t. map (\<alpha> t)) s1
        (mapArray f xs s1) (out, ws)"
      by simp
    obtain r2 s2 where m: "mapArray f xs s1 = (r2, s2)" by (cases "mapArray f xs s1")
    have u2: "unchanged s1 s2"
      using mapArray_unchanged [of f s1 xs, OF frame] m by simp
    show ?thesis
    proof (cases r2)
      case (Inl e)
      with ih m have "out = Inl e" and w2: "writes s1 s2 ws"
        by (simp_all add: agrees_Inl)
      with Inl Inr fx m gx out y(2) writes_trans [OF w1 w2] show ?thesis
        by (simp add: agrees_Inl andThen_def)
    next
      case (Inr ys)
      with ih m have ys: "\<forall>b\<in>set ys. V s2 b" "out = Inr (map (\<alpha> s2) ys)"
        and w2: "writes s1 s2 ws"
        by (simp_all add: agrees_Inr)
      from mono [OF u2 y(1)] have "V s2 y" "\<alpha> s2 y = \<alpha> s1 y" by simp_all
      with \<open>r = Inr y\<close> Inr fx m gx out y(2) ys writes_trans [OF w1 w2] show ?thesis
        by (simp add: agrees_Inr andThen_def)
    qed
  qed
qed

lemma validObj_mono:
  "unchanged t t' \<Longrightarrow> validObj t a \<Longrightarrow> validObj t' a \<and> objValue t' a = objValue t a"
  by (simp add: validObj_def objValue_def unchanged_obj unchanged_obj_valid)

lemma mapRow_st_agrees:
  assumes f: "refinesEl f G" and v: "validRow s r"
  shows "agrees validRow rowValue s (mapRow_st f r s) (mapLogged G (rowValue s r))"
proof -
  let ?xs = "rowArrs s ! r"
  have fr: "\<And>a t. unchanged t (snd (f a t))"
    using f by (simp add: refinesEl_def)
  have st: "\<And>a t. validObj t a \<Longrightarrow> agrees validObj objValue t (f a t) (G (objValue t a))"
    using f by (simp add: refinesEl_def)
  have vs: "\<forall>a\<in>set ?xs. validObj s a"
    using v by (simp add: validRow_def validObj_def)
  have rv: "map (objValue s) ?xs = rowValue s r"
    by (simp add: rowValue_def objValue_def)
  from mapArray_agrees [of validObj objValue f G ?xs s, OF validObj_mono fr st vs] rv
  have m: "agrees (\<lambda>t bs. \<forall>b\<in>set bs. validObj t b) (\<lambda>t. map (objValue t)) s
      (mapArray f ?xs s) (mapLogged G (rowValue s r))"
    by simp
  obtain r1 s1 where a: "mapArray f ?xs s = (r1, s1)" by (cases "mapArray f ?xs s")
  obtain out w where o: "mapLogged G (rowValue s r) = (out, w)"
    by (cases "mapLogged G (rowValue s r)")
  show ?thesis
  proof (cases r1)
    case (Inl e)
    with m a o show ?thesis
      by (simp add: mapRow_st_def agrees_Inl)
  next
    case (Inr els)
    with m a o have els: "\<forall>b\<in>set els. validObj s1 b" "out = Inr (map (objValue s1) els)"
      and w: "writes s s1 w"
      by (simp_all add: agrees_Inr)
    from writes_trans [OF w newRow_writes [of s1 els]]
    have "writes s (snd (newRow els s1)) w" by simp
    with Inr a o els show ?thesis
      by (simp add: mapRow_st_def agrees_Inr split_beta)
        (simp add: newRow_def validRow_def rowValue_def validObj_def objValue_def)
  qed
qed

lemma mapElementsInSchema_st_agrees:
  assumes f: "refinesEl f G" and v: "validSchema s c"
  shows "agrees validSchema schemaValue s (mapElementsInSchema_st c f s)
           (mapElementsInSchema (schemaValue s c) G)"
proof -
  let ?xs = "schemaArrs s ! c"
  let ?G = "\<lambda>row. mapLogged (\<lambda>el. G el) row"
  have fr: "\<And>a t. unchanged t (snd (f a t))"
    using f by (simp add: refinesEl_def)
  have mono: "\<And>t t' a. unchanged t t' \<Longrightarrow> validRow t a \<Longrightarrow>
      validRow t' a \<and> rowValue t' a = rowValue t a"
    by (simp add: unchanged_rowValue)
  have frr: "\<And>a t. unchanged t (snd (mapRow_st f a t))"
    by (rule mapRow_st_unchanged) (rule fr)
  have st: "\<And>a t. validRow t a \<Longrightarrow>
      agrees validRow rowValue t (mapRow_st f a t) (?G (rowValue t a))"
    using mapRow_st_agrees [OF f] by simp
  have vs: "\<forall>a\<in>set ?xs. validRow s a"
    using v by (simp add: validSchema_def)
  have sv: "mapLogged ?G (map (rowValue s) ?xs) = mapElementsInSchema (schemaValue s c) G"
    by (simp add: mapElementsInSchema_def schemaValue_def)
  from mapArray_agrees [of validRow rowValue "mapRow_st f" ?G ?xs s, OF mono frr st vs] sv
  have m: "agrees (\<lambda>t bs. \<forall>b\<in>set bs. validRow t b) (\<lambda>t. map (rowValue t)) s
      (mapArray (mapRow_st f) ?xs s) (mapElementsInSchema (schemaValue s c) G)"
    by simp
  obtain r1 s1 where a: "mapArray (mapRow_st f) ?xs s = (r1, s1)"
    by (cases "mapArray (mapRow_st f) ?xs s")
  obtain out w where o: "mapElementsInSchema (schemaValue s c) G = (out, w)"
    by (cases "mapElementsInSchema (schemaValue s c) G")
  show ?thesis
  proof (cases r1)
    case (Inl e)
    with m a o show ?thesis
      by (simp add: mapElementsInSchema_st_def agrees_Inl)
  next
    case (Inr rows)
    with m a o have rows: "\<forall>b\<in>set rows. validRow s1 b" "out = Inr (map (rowValue s1) rows)"
      and w: "writes s s1 w"
      by (simp_all add: agrees_Inr)
    let ?s2 = "snd (newSchema rows s1)"
    have keep: "\<forall>b\<in>set rows. validRow ?s2 b \<and> rowValue ?s2 b = rowValue s1 b"
      using rows(1) unchanged_rowValue [OF newSchema_unchanged] by blast
    have vs2: "validSchema ?s2 (fst (newSchema rows s1))"
      using keep by (simp add: validSchema_def) (simp add: newSchema_def)
    have "schemaValue ?s2 (fst (newSchema rows s1)) = map (rowValue ?s2) rows"
      by (simp add: schemaValue_def newSchema_def)
    also have "\<dots> = map (rowValue s1) rows"
      using keep by simp
    finally have sv2: "schemaValue ?s2 (fst (newSchema rows s1)) = map (rowValue s1) rows" .
    from writes_trans [OF w newSchema_writes [of s1 rows]]
    have "writes s ?s2 w" by simp
    with Inr a o rows(2) vs2 sv2 show ?thesis
      by (simp add: mapElementsInSchema_st_def agrees_Inr split_beta)
  qed
qed

lemma replaceWith_st_console:
  "inProp h (objs t ! a) k \<Longrightarrow> console (snd (replaceWith_st h a k pr t)) = console t"
  by (simp add: replaceWith_st_def Let_def newObject_def writeObject_def split: sum.splits)

lemma replaceWith_st_agrees:
  assumes "validObj t a"
  shows "agrees validObj objValue t (replaceWith_st h a k pr t) (replaceWith h (objValue t a) k pr)"
proof (cases "inProp h (objs t ! a) k")
  case False
  with assms show ?thesis
    by (cases "processGlobal h")
      (auto simp: replaceWith_st_def replaceWith_def agrees_def objValue_def validObj_def
        writes_def validConsole_def logValue_def warn_def)
next
  case True
  have "prefix (objs t) (objs (snd (replaceWith_st h a k pr t)))"
    using replaceWith_st_unchanged [of t h a k pr] by (simp add: unchanged_def)
  with replaceWith_st_console [OF True, of pr]
  have w: "writes t (snd (replaceWith_st h a k pr t)) []"
    by (rule writes_same_console)
  have l: "snd (replaceWith h (objs t ! a) k pr) = []"
    using True by (simp add: replaceWith_def Let_def split: sum.splits)
  have "case fst (replaceWith_st h a k pr t) of
      Inl e \<Rightarrow> fst (replaceWith h (objs t ! a) k pr) = Inl e
    | Inr b \<Rightarrow> validObj (snd (replaceWith_st h a k pr t)) b
        \<and> fst (replaceWith h (objs t ! a) k pr) = Inr (objValue (snd (replaceWith_st h a k pr t)) b)"
    using True
    by (simp add: replaceWith_st_def replaceWith_def Let_def newObject_def writeObject_def
        validObj_def objValue_def split: sum.splits)
  with w l show ?thesis
    by (simp add: agrees_def objValue_def)
qed

lemma replacePropInElement_st_refines:
  "refinesEl (\<lambda>el. replacePropInElement_st h el k d) (\<lambda>e. replacePropInElement h e k d)"
  unfolding refinesEl_def
proof (intro conjI allI impI)
  fix a t
  show "unchanged t (snd (replacePropInElement_st h a k d t))"
    by (rule replacePropInElement_st_unchanged)
  assume a: "validObj t a"
  show "agrees validObj objValue t (replacePropInElement_st h a k d t)
      (replacePropInElement h (objValue t a) k d)"
  proof (cases d)
    case (DVal v)
    with replaceWith_st_agrees [OF a, of h k v] show ?thesis
      by (simp add: replacePropInElement_st_def replacePropInElement_def)
  next
    case (DFun g)
    show ?thesis
    proof (cases "truthy (g (objs t ! a))")
      case True
      with DFun replaceWith_st_agrees [OF a, of h k "g (objs t ! a)"] show ?thesis
        by (simp add: replacePropInElement_st_def replacePropInElement_def objValue_def)
    next
      case False
      with DFun a show ?thesis
        by (simp add: replacePropInElement_st_def replacePropInElement_def objValue_def
            agrees_def writes_refl)
    qed
  qed
qed

lemma mapPropsForElementLoop_st_agrees:
  assumes "validObj t a"
  shows "agrees validObj objValue t (mapPropsForElementLoop_st h a m t)
           (mapPropsForElementLoop h (objValue t a) m)"
  using assms
proof (induction m arbitrary: a t)
  case Nil
  then show ?case by (simp add: agrees_def writes_refl)
next
  case (Cons p m)
  obtain k d where p: "p = (k, d)" by (cases p)
  obtain r t1 where st: "replacePropInElement_st h a k d t = (r, t1)"
    by (cases "replacePropInElement_st h a k d t")
  obtain g w where vl: "replacePropInElement h (objValue t a) k d = (g, w)"
    by (cases "replacePropInElement h (objValue t a) k d")
  have "agrees validObj objValue t (replacePropInElement_st h a k d t)
      (replacePropInElement h (objValue t a) k d)"
    using replacePropInElement_st_refines [of h k d] Cons.prems
    by (simp add: refinesEl_def)
  with st vl have ag: "agrees validObj objValue t (r, t1) (g, w)"
    by simp
  show ?case
  proof (cases r)
    case (Inl e)
    with ag st vl show ?thesis
      by (simp add: p agrees_Inl andThen_def)
  next
    case (Inr b)
    with ag have b: "validObj t1 b" "g = Inr (objValue t1 b)" and w1: "writes t t1 w"
      by (simp_all add: agrees_Inr)
    obtain r2 t2 where st2: "mapPropsForElementLoop_st h b m t1 = (r2, t2)"
      by (cases "mapPropsForElementLoop_st h b m t1")
    obtain g2 w2 where vl2: "mapPropsForElementLoop h (objValue t1 b) m = (g2, w2)"
      by (cases "mapPropsForElementLoop h (objValue t1 b) m")
    from Cons.IH [OF b(1)] st2 vl2
    have ih: "agrees validObj objValue t1 (r2, t2) (g2, w2)" by simp
    then have "writes t1 t2 w2" by (simp add: agrees_def)
    from writes_trans [OF w1 this] ih Inr st vl b(2) st2 vl2 show ?thesis
      by (cases r2) (simp_all add: p agrees_def andThen_def)
  qed
qed

lemma mapPropsForElement_st_refines:
  "refinesEl (mapPropsForElement_st h fn) (\<lambda>e. mapPropsForElement h e fn)"
  unfolding refinesEl_def
proof (intro conjI allI impI)
  fix a t
  show "unchanged t (snd (mapPropsForElement_st h fn a t))"
    by (simp add: mapPropsForElement_st_def mapPropsForElementLoop_st_unchanged)
  assume "validObj t a"
  from mapPropsForElementLoop_st_agrees [OF this, of h "fn (objs t ! a)"]
  show "agrees validObj objValue t (mapPropsForElement_st h fn a t)
      (mapPropsForElement h (objValue t a) fn)"
    by (simp add: mapPropsForElement_st_def mapPropsForElement_def objValue_def)
qed

lemma mapCompsElement_st_refines:
  "refinesEl (mapCompsElement_st h T) (\<lambda>e. (mapCompsElement h T e, []))"
  unfolding refinesEl_def
proof (intro conjI allI impI)
  fix a t
  show "unchanged t (snd (mapCompsElement_st h T a t))"
    by (rule mapCompsElement_st_unchanged)
  have w: "writes t (snd (mapCompsElement_st h T a t)) []"
    by (rule writes_same_console)
      (simp_all add: mapCompsElement_st_def Let_def newObject_def split: sum.splits)
  have "case fst (mapCompsElement_st h T a t) of
      Inl e \<Rightarrow> mapCompsElement h T (objs t ! a) = Inl e
    | Inr b \<Rightarrow> validObj (snd (mapCompsElement_st h T a t)) b
        \<and> mapCompsElement h T (objs t ! a) = Inr (objValue (snd (mapCompsElement_st h T a t)) b)"
    by (simp add: mapCompsElement_st_def mapCompsElement_def Let_def newObject_def
        validObj_def objValue_def split: sum.splits)
  with w show "agrees validObj objValue t (mapCompsElement_st h T a t)
      (mapCompsElement h T (objValue t a), [])"
    by (simp add: agrees_def objValue_def cong: sum.case_cong)
qed

lemma mapComps_st_agrees:
  assumes "validSchema s c"
  shows "agrees validSchema schemaValue s (mapComps_st h c T s) (mapComps h (schemaValue s c) T)"
  using mapElementsInSchema_st_agrees [OF mapCompsElement_st_refines assms, of h T]
  by (simp add: mapComps_st_def mapComps_def)

lemma mapPropertiesLoop_st_agrees:
  assumes "validSchema s c" and "\<forall>c'. acc = Some c' \<longrightarrow> validSchema s c'"
  shows "agrees (\<lambda>t r. \<forall>c'. r = Some c' \<longrightarrow> validSchema t c') (\<lambda>t. map_option (schemaValue t)) s
           (mapPropertiesLoop_st h c m acc s)
           (mapPropertiesLoop h (schemaValue s c) m (map_option (schemaValue s) acc))"
  using assms
proof (induction m arbitrary: acc s)
  case Nil
  then show ?case by (simp add: agrees_def writes_refl)
next
  case (Cons p m)
  obtain k d where p: "p = (k, d)" by (cases p)
  let ?G = "\<lambda>e. replacePropInElement h e k d"
  let ?S = "schemaValue s c"
  obtain r s1 where st: "mapElementsInSchema_st c (\<lambda>el. replacePropInElement_st h el k d) s = (r, s1)"
    by (cases "mapElementsInSchema_st c (\<lambda>el. replacePropInElement_st h el k d) s")
  obtain g w where vl: "mapElementsInSchema ?S ?G = (g, w)"
    by (cases "mapElementsInSchema ?S ?G")
  from mapElementsInSchema_st_agrees [OF replacePropInElement_st_refines Cons.prems(1), of h k d]
    st vl
  have ag: "agrees validSchema schemaValue s (r, s1) (g, w)" by simp
  have u: "unchanged s s1"
    using mapElementsInSchema_st_unchanged
      [of "\<lambda>el. replacePropInElement_st h el k d" s c, OF replacePropInElement_st_unchanged] st
    by simp
  show ?case
  proof (cases r)
    case (Inl e)
    with ag st vl show ?thesis
      by (simp add: p agrees_Inl andThen_def)
  next
    case (Inr c1)
    with ag have c1: "validSchema s1 c1" "g = Inr (schemaValue s1 c1)" and w1: "writes s s1 w"
      by (simp_all add: agrees_Inr)
    have keep: "validSchema s1 c" "schemaValue s1 c = ?S"
      using unchanged_schemaValue [OF u Cons.prems(1)] by simp_all
    have "\<forall>c'. Some c1 = Some c' \<longrightarrow> validSchema s1 c'"
      using c1(1) by simp
    from Cons.IH [OF keep(1) this]
    have ih: "agrees (\<lambda>t r. \<forall>c'. r = Some c' \<longrightarrow> validSchema t c')
        (\<lambda>t. map_option (schemaValue t)) s1
        (mapPropertiesLoop_st h c m (Some c1) s1)
        (mapPropertiesLoop h ?S m (Some (schemaValue s1 c1)))"
      by (simp add: keep(2))
    obtain r2 s2 where st2: "mapPropertiesLoop_st h c m (Some c1) s1 = (r2, s2)"
      by (cases "mapPropertiesLoop_st h c m (Some c1) s1")
    obtain g2 w2 where vl2: "mapPropertiesLoop h ?S m (Some (schemaValue s1 c1)) = (g2, w2)"
      by (cases "mapPropertiesLoop h ?S m (Some (schemaValue s1 c1))")
    from ih st2 vl2 have "writes s1 s2 w2" by (simp add: agrees_def)
    from writes_trans [OF w1 this] ih Inr st vl c1(2) st2 vl2 show ?thesis
      by (cases r2) (simp_all add: p agrees_def andThen_def)
  qed
qed

lemma mapProperties_st_agrees:
  assumes "validSchema s c"
  shows "agrees (\<lambda>t r. \<forall>c'. r = Some c' \<longrightarrow> validSchema t c') (\<lambda>t. map_option (schemaValue t)) s
           (mapProperties_st h c mp s) (mapProperties h (schemaValue s c) mp)"
proof (cases mp)
  case MPNone
  with assms show ?thesis
    by (simp add: mapProperties_st_def mapProperties_def agrees_def writes_refl)
next
  case (MPStatic m)
  with mapPropertiesLoop_st_agrees [OF assms, of None h m] show ?thesis
    by (simp add: mapProperties_st_def mapProperties_def)
next
  case (MPFun fn)
  obtain r s1 where st: "mapElementsInSchema_st c (mapPropsForElement_st h fn) s = (r, s1)"
    by (cases "mapElementsInSchema_st c (mapPropsForElement_st h fn) s")
  obtain g w where vl: "mapElementsInSchema (schemaValue s c) (\<lambda>e. mapPropsForElement h e fn) = (g, w)"
    by (cases "mapElementsInSchema (schemaValue s c) (\<lambda>e. mapPropsForElement h e fn)")
  from mapElementsInSchema_st_agrees [OF mapPropsForElement_st_refines assms, of h fn] st vl
  have "agrees validSchema schemaValue s (r, s1) (g, w)" by simp
  with MPFun st vl show ?thesis
    by (cases r)
      (simp_all add: mapProperties_st_def mapProperties_def agrees_def andThen_def
        mapPropertiesWithUserFunction_st_def mapPropertiesWithUserFunction_def)
qed

text \<open>
  The pipeline on the store returns a reference to the schema that the pipeline on
  values returns, or throws what it throws, and adds to the console the warnings it
  returns.
\<close>

lemma LookupPlugin_st_agrees:
  assumes "validSchema s c"
  shows "agrees validSchema schemaValue s (LookupPlugin_st h T mp c s)
           (LookupPlugin h T mp (schemaValue s c))"
proof -
  obtain r s1 where st: "mapProperties_st h c mp s = (r, s1)"
    by (cases "mapProperties_st h c mp s")
  obtain g w where vl: "mapProperties h (schemaValue s c) mp = (g, w)"
    by (cases "mapProperties h (schemaValue s c) mp")
  from mapProperties_st_agrees [OF assms, of h mp] st vl
  have ag: "agrees (\<lambda>t r. \<forall>c'. r = Some c' \<longrightarrow> validSchema t c')
      (\<lambda>t. map_option (schemaValue t)) s (r, s1) (g, w)"
    by simp
  show ?thesis
  proof (cases r)
    case (Inl e)
    with ag st vl show ?thesis
      by (simp add: LookupPlugin_st_def LookupPlugin_def agrees_Inl andThen_def)
  next
    case (Inr oc)
    with ag have oc: "\<forall>c'. oc = Some c' \<longrightarrow> validSchema s1 c'"
      "g = Inr (map_option (schemaValue s1) oc)" and w1: "writes s s1 w"
      by (simp_all add: agrees_Inr)
    show ?thesis
    proof (cases oc)
      case None
      with Inr oc(2) w1 st vl show ?thesis
        by (simp add: LookupPlugin_st_def LookupPlugin_def agrees_Inl andThen_def)
    next
      case (Some c1)
      with oc(1) have v1: "validSchema s1 c1" by simp
      obtain r2 s2 where st2: "mapComps_st h c1 T s1 = (r2, s2)"
        by (cases "mapComps_st h c1 T s1")
      obtain g2 w2 where vl2: "mapComps h (schemaValue s1 c1) T = (g2, w2)"
        by (cases "mapComps h (schemaValue s1 c1) T")
      from mapComps_st_agrees [OF v1, of h T] st2 vl2
      have ag2: "agrees validSchema schemaValue s1 (r2, s2) (g2, w2)" by simp
      then have "writes s1 s2 w2" by (simp add: agrees_def)
      from writes_trans [OF w1 this] ag2 Inr Some oc(2) st vl st2 vl2 show ?thesis
        by (cases r2) (simp_all add: LookupPlugin_st_def LookupPlugin_def agrees_def andThen_def)
    qed
  qed
qed

end
